theory Spec2Isabelle
  imports Complex_Main
begin

section \<open>JavaScript numbers\<close>

text \<open>
  The scene editor computes on JavaScript numbers, which are IEEE-754 doubles. The
  model keeps the special values (Infinity, -Infinity, NaN) and the rules of arithmetic
  and comparison on them, and computes on the finite values in the reals. Rounding
  error, overflow of a finite result and the sign of zero are left out: every zero is
  +0, which is what \<open>a - a\<close> yields for a finite \<open>a\<close>.
\<close>

datatype jsnum = Fin real | PInf | NInf | NaN

fun isFinite :: "jsnum \<Rightarrow> bool" where
  "isFinite (Fin _) = True"
| "isFinite _ = False"

fun jneg :: "jsnum \<Rightarrow> jsnum" where
  "jneg (Fin a) = Fin (- a)"
| "jneg PInf = NInf"
| "jneg NInf = PInf"
| "jneg NaN = NaN"

fun jadd :: "jsnum \<Rightarrow> jsnum \<Rightarrow> jsnum" where
  "jadd NaN _ = NaN"
| "jadd _ NaN = NaN"
| "jadd (Fin a) (Fin b) = Fin (a + b)"
| "jadd (Fin _) PInf = PInf"
| "jadd (Fin _) NInf = NInf"
| "jadd PInf NInf = NaN"
| "jadd PInf _ = PInf"
| "jadd NInf PInf = NaN"
| "jadd NInf _ = NInf"

definition jsub :: "jsnum \<Rightarrow> jsnum \<Rightarrow> jsnum" where
  "jsub a b = jadd a (jneg b)"

text \<open>The infinity of the given sign; an infinity times zero is NaN.\<close>

definition signed_inf :: "real \<Rightarrow> jsnum" where
  "signed_inf s = (if s = 0 then NaN else if 0 < s then PInf else NInf)"

fun jmul :: "jsnum \<Rightarrow> jsnum \<Rightarrow> jsnum" where
  "jmul NaN _ = NaN"
| "jmul _ NaN = NaN"
| "jmul (Fin a) (Fin b) = Fin (a * b)"
| "jmul (Fin a) PInf = signed_inf a"
| "jmul (Fin a) NInf = signed_inf (- a)"
| "jmul PInf (Fin b) = signed_inf b"
| "jmul NInf (Fin b) = signed_inf (- b)"
| "jmul PInf PInf = PInf"
| "jmul PInf NInf = NInf"
| "jmul NInf PInf = NInf"
| "jmul NInf NInf = PInf"

text \<open>
  Division never raises: a finite nonzero number over zero is an infinity of the
  dividend's sign, and zero over zero is NaN.
\<close>

fun jdiv :: "jsnum \<Rightarrow> jsnum \<Rightarrow> jsnum" where
  "jdiv NaN _ = NaN"
| "jdiv _ NaN = NaN"
| "jdiv (Fin a) (Fin b) = (if b = 0 then signed_inf a else Fin (a / b))"
| "jdiv (Fin _) PInf = Fin 0"
| "jdiv (Fin _) NInf = Fin 0"
| "jdiv PInf (Fin b) = (if 0 \<le> b then PInf else NInf)"
| "jdiv NInf (Fin b) = (if 0 \<le> b then NInf else PInf)"
| "jdiv PInf _ = NaN"
| "jdiv NInf _ = NaN"

text \<open>Comparisons with NaN are false, \<open>===\<close> included.\<close>

fun jlt :: "jsnum \<Rightarrow> jsnum \<Rightarrow> bool" where
  "jlt (Fin a) (Fin b) = (a < b)"
| "jlt (Fin _) PInf = True"
| "jlt NInf (Fin _) = True"
| "jlt NInf PInf = True"
| "jlt _ _ = False"

fun jge :: "jsnum \<Rightarrow> jsnum \<Rightarrow> bool" where
  "jge (Fin a) (Fin b) = (b \<le> a)"
| "jge NaN _ = False"
| "jge _ NaN = False"
| "jge PInf _ = True"
| "jge _ NInf = True"
| "jge _ _ = False"

fun jeq :: "jsnum \<Rightarrow> jsnum \<Rightarrow> bool" where
  "jeq NaN _ = False"
| "jeq _ NaN = False"
| "jeq a b = (a = b)"

text \<open>\<open>Math.max\<close> and \<open>Math.min\<close> return NaN as soon as one argument is NaN.\<close>

fun Math_max :: "jsnum \<Rightarrow> jsnum \<Rightarrow> jsnum" where
  "Math_max NaN _ = NaN"
| "Math_max _ NaN = NaN"
| "Math_max a b = (if jlt a b then b else a)"

fun Math_min :: "jsnum \<Rightarrow> jsnum \<Rightarrow> jsnum" where
  "Math_min NaN _ = NaN"
| "Math_min _ NaN = NaN"
| "Math_min a b = (if jlt b a then b else a)"

fun Math_floor :: "jsnum \<Rightarrow> jsnum" where
  "Math_floor (Fin a) = Fin (of_int \<lfloor>a\<rfloor>)"
| "Math_floor a = a"

text \<open>\<open>Math.round\<close> rounds to the nearest integer, a tie towards +Infinity.\<close>

fun Math_round :: "jsnum \<Rightarrow> jsnum" where
  "Math_round (Fin a) = Fin (of_int \<lfloor>a + 1 / 2\<rfloor>)"
| "Math_round a = a"


text \<open>
  \<open>Math.atan2(y, x)\<close>: the angle of the point \<open>(x, y)\<close> in radians, in
  \<open>(-\<pi>, \<pi>]\<close>, and 0 at the origin.
\<close>

definition atan2 :: "real \<Rightarrow> real \<Rightarrow> real" where
  "atan2 y x =
     (if 0 < x then arctan (y / x)
      else if x < 0 then (if 0 \<le> y then arctan (y / x) + pi else arctan (y / x) - pi)
      else if 0 < y then pi / 2
      else if y < 0 then - (pi / 2)
      else 0)"

fun Math_atan2 :: "jsnum \<Rightarrow> jsnum \<Rightarrow> jsnum" where
  "Math_atan2 NaN _ = NaN"
| "Math_atan2 _ NaN = NaN"
| "Math_atan2 (Fin y) (Fin x) = Fin (atan2 y x)"
| "Math_atan2 (Fin y) PInf = Fin 0"
| "Math_atan2 (Fin y) NInf = Fin (if 0 \<le> y then pi else - pi)"
| "Math_atan2 PInf (Fin x) = Fin (pi / 2)"
| "Math_atan2 NInf (Fin x) = Fin (- (pi / 2))"
| "Math_atan2 PInf PInf = Fin (pi / 4)"
| "Math_atan2 PInf NInf = Fin (3 * pi / 4)"
| "Math_atan2 NInf PInf = Fin (- (pi / 4))"
| "Math_atan2 NInf NInf = Fin (- (3 * pi / 4))"

definition Math_PI :: jsnum where
  "Math_PI = Fin pi"

section \<open>The scene model\<close>

text \<open>
  A scene object is a plain JavaScript object; the record has the fields the tools
  read and write. \<open>rotation\<close> may be absent (\<open>None\<close>). The fields from
  \<open>tileSize\<close> on are those of a tilemap: \<open>columns\<close> and \<open>rows\<close> are integers,
  tile indices are integers with 0 for the empty tile, and an entry of \<open>tileData\<close>
  is \<open>None\<close> where the array has a hole.
\<close>

record scene_object =
  obj_id :: string
  obj_type :: string
  obj_name :: string
  obj_x :: jsnum
  obj_y :: jsnum
  obj_width :: jsnum
  obj_height :: jsnum
  obj_rotation :: "jsnum option"
  obj_tileSize :: jsnum
  obj_columns :: int
  obj_rows :: int
  obj_tileset :: "string option"
  obj_tileData :: "int option list"

record layer =
  layer_id :: string
  layer_name :: string
  layer_visible :: bool
  layer_objects :: "scene_object list"

text \<open>
  Layers are shared: the scene's \<open>layers\<close> array and the drag state of a tool hold
  references to the same layer objects, and the tools mutate the objects of a layer in
  place. A reference is an address in the store \<open>heap\<close>. The width and height of
  a scene are finite numbers.
\<close>

type_synonym ref = nat

record scene =
  scene_id :: string
  scene_name :: string
  scene_width :: real
  scene_height :: real
  scene_backgroundColor :: string
  scene_layers :: "ref list"
  scene_activeLayer :: string

text \<open>What a tool captures on pointer-down for each selected object.\<close>

record drag_object =
  di_id :: string
  di_layer :: ref
  di_startX :: jsnum
  di_startY :: jsnum

record rotate_object =
  ri_id :: string
  ri_layer :: ref
  ri_centerX :: jsnum
  ri_centerY :: jsnum
  ri_startRotation :: jsnum
  ri_initialAngle :: jsnum

record scale_object =
  si_id :: string
  si_layer :: ref
  si_startX :: jsnum
  si_startY :: jsnum
  si_startWidth :: jsnum
  si_startHeight :: jsnum
  si_startMouseX :: jsnum
  si_startMouseY :: jsnum

text \<open>
  The fields of \<open>SceneEditor\<close>, with the store of layers, the size of the canvas
  (\<open>None\<close> before \<open>initUI\<close>), and the two globals the tile tool reads from
  \<open>this.app\<close>. The drag state of each tool is \<open>None\<close> when the field is null or
  was never set. Drawing, the DOM and the event bus are outside the state.
\<close>

record editor =
  heap :: "ref \<Rightarrow> layer"
  heap_next :: ref
  canvas :: "(jsnum \<times> jsnum) option"
  ctx :: bool
  activeScene :: "scene option"
  selectedObjects :: "string list"
  gridSize :: jsnum
  showGrid :: bool
  snapToGrid :: bool
  zoom :: jsnum
  panOffset :: "jsnum \<times> jsnum"
  isDragging :: bool
  isPanning :: bool
  activeTool :: string
  dragInfo :: "drag_object list option"
  rotateInfo :: "rotate_object list option"
  scaleInfo :: "scale_object list option"
  lastPlacedTile :: "(jsnum \<times> jsnum) option"
  app_tileset :: "string option"
  app_selectedTile :: "int option"

datatype js_error = TypeError

section \<open>Tool selection, zoom and the scene rectangle\<close>

record tool =
  tool_name :: string
  tool_icon :: string
  tool_cursor :: string

definition tools :: "(string \<times> tool) list" where
  "tools =
     [(''select'', \<lparr>tool_name = ''Select'', tool_icon = ''icon-select'', tool_cursor = ''default''\<rparr>),
      (''move'', \<lparr>tool_name = ''Move'', tool_icon = ''icon-move'', tool_cursor = ''move''\<rparr>),
      (''rotate'', \<lparr>tool_name = ''Rotate'', tool_icon = ''icon-rotate'', tool_cursor = ''crosshair''\<rparr>),
      (''scale'', \<lparr>tool_name = ''Scale'', tool_icon = ''icon-scale'', tool_cursor = ''nesw-resize''\<rparr>),
      (''tile'', \<lparr>tool_name = ''Tile'', tool_icon = ''icon-tile'', tool_cursor = ''cell''\<rparr>)]"

text \<open>
  \<open>this.tools\<close> is an object literal, so \<open>this.tools[toolId]\<close> is also truthy for
  the property names it inherits from \<open>Object.prototype\<close>.
\<close>

definition Object_prototype :: "string list" where
  "Object_prototype =
     [''constructor'', ''hasOwnProperty'', ''isPrototypeOf'', ''propertyIsEnumerable'',
      ''toLocaleString'', ''toString'', ''valueOf'', ''__proto__'', ''__defineGetter__'',
      ''__defineSetter__'', ''__lookupGetter__'', ''__lookupSetter__'']"

definition setActiveTool :: "editor \<Rightarrow> string \<Rightarrow> editor" where
  "setActiveTool ed toolId =
     (if toolId \<in> set (map fst tools @ Object_prototype)
      then ed\<lparr>activeTool := toolId\<rparr>
      else ed)"

definition setZoom :: "editor \<Rightarrow> jsnum \<Rightarrow> editor" where
  "setZoom ed z = ed\<lparr>zoom := Math_max (Fin (1 / 10)) (Math_min (Fin 5) z)\<rparr>"

text \<open>
  \<open>render\<close> draws and changes no field. Its value here is the rectangle it fills
  with the scene's background colour, \<open>(sceneX, sceneY, sceneWidth, sceneHeight)\<close>;
  \<open>None\<close> when it returns before drawing.
\<close>

definition render :: "editor \<Rightarrow> (jsnum \<times> jsnum \<times> jsnum \<times> jsnum) option" where
  "render ed =
     (if \<not> ctx ed then None
      else case canvas ed of
        None \<Rightarrow> None
      | Some (canvas_width, canvas_height) \<Rightarrow>
          (case activeScene ed of
             None \<Rightarrow> None
           | Some sc \<Rightarrow>
               let sceneWidth = jmul (Fin (scene_width sc)) (zoom ed);
                   sceneHeight = jmul (Fin (scene_height sc)) (zoom ed);
                   sceneX = jadd (jdiv (jsub canvas_width sceneWidth) (Fin 2)) (fst (panOffset ed));
                   sceneY = jadd (jdiv (jsub canvas_height sceneHeight) (Fin 2)) (snd (panOffset ed))
               in Some (sceneX, sceneY, sceneWidth, sceneHeight)))"

section \<open>Helpers of the tools\<close>

text \<open>
  Modelled from the spec: \<open>snapToGridValue\<close> is called by the move and scale tools
  and is not among the sources. The spec has \<open>snap(value, gridSize)\<close> round to the
  nearest multiple of \<open>gridSize\<close>, applied only when the snap-to-grid toggle is active;
  the rounding is \<open>Math.round\<close>, as in the rotate tool's own snapping.
\<close>

definition snapToGridValue :: "editor \<Rightarrow> jsnum \<Rightarrow> jsnum" where
  "snapToGridValue ed v =
     (if snapToGrid ed then jmul (Math_round (jdiv v (gridSize ed))) (gridSize ed) else v)"

text \<open>
  \<open>const object = xs.find(p); object.f = v\<close> changes the first element that
  satisfies \<open>p\<close>, in place.
\<close>

fun update_first :: "('a \<Rightarrow> bool) \<Rightarrow> ('a \<Rightarrow> 'a) \<Rightarrow> 'a list \<Rightarrow> 'a list" where
  "update_first p f [] = []"
| "update_first p f (x # xs) = (if p x then f x # xs else x # update_first p f xs)"

definition update_object ::
  "(ref \<Rightarrow> layer) \<Rightarrow> ref \<Rightarrow> (scene_object \<Rightarrow> bool) \<Rightarrow> (scene_object \<Rightarrow> scene_object) \<Rightarrow> (ref \<Rightarrow> layer)" where
  "update_object h r p f =
     h(r := (h r)\<lparr>layer_objects := update_first p f (layer_objects (h r))\<rparr>)"

text \<open>\<open>layers.find(layer => layer.id === activeLayer)\<close>, as a reference.\<close>

definition find_layer :: "(ref \<Rightarrow> layer) \<Rightarrow> ref list \<Rightarrow> string \<Rightarrow> ref option" where
  "find_layer h refs lid = find (\<lambda>r. layer_id (h r) = lid) refs"

text \<open>
  The loop of the pointer-down handlers over \<open>activeScene.layers\<close>: the first layer
  that holds an object of the given id, and that object.
\<close>

fun find_in_layers :: "(ref \<Rightarrow> layer) \<Rightarrow> ref list \<Rightarrow> string \<Rightarrow> (ref \<times> scene_object) option" where
  "find_in_layers h [] oid = None"
| "find_in_layers h (r # rs) oid =
     (case find (\<lambda>ob. obj_id ob = oid) (layer_objects (h r)) of
        Some obj \<Rightarrow> Some (r, obj)
      | None \<Rightarrow> find_in_layers h rs oid)"


section \<open>The move tool\<close>

text \<open>
  \<open>handleMoveToolDown\<close> is not among the sources; \<open>dragInfo.objects\<close> holds what
  \<open>handleMoveToolMove\<close> reads of it. The handlers take the arguments they use.
\<close>

fun move_objects :: "editor \<Rightarrow> drag_object list \<Rightarrow> jsnum \<Rightarrow> jsnum \<Rightarrow> editor" where
  "move_objects ed [] deltaX deltaY = ed"
| "move_objects ed (objInfo # rest) deltaX deltaY =
     (case find (\<lambda>ob. obj_id ob = di_id objInfo) (layer_objects (heap ed (di_layer objInfo))) of
        None \<Rightarrow> move_objects ed rest deltaX deltaY
      | Some object \<Rightarrow>
          let newX = jadd (di_startX objInfo) (jdiv deltaX (zoom ed));
              newY = jadd (di_startY objInfo) (jdiv deltaY (zoom ed))
          in move_objects
               (ed\<lparr>heap := update_object (heap ed) (di_layer objInfo) (\<lambda>ob. obj_id ob = di_id objInfo)
                   (\<lambda>ob. ob\<lparr>obj_x := snapToGridValue ed newX, obj_y := snapToGridValue ed newY\<rparr>)\<rparr>)
               rest deltaX deltaY)"

definition handleMoveToolMove :: "editor \<Rightarrow> jsnum \<Rightarrow> jsnum \<Rightarrow> editor" where
  "handleMoveToolMove ed deltaX deltaY =
     (case dragInfo ed of
        Some objects \<Rightarrow> move_objects ed objects deltaX deltaY
      | None \<Rightarrow>
          if isPanning ed
          then ed\<lparr>panOffset := (jadd (fst (panOffset ed)) deltaX, jadd (snd (panOffset ed)) deltaY)\<rparr>
          else ed)"

definition handleMoveToolUp :: "editor \<Rightarrow> editor" where
  "handleMoveToolUp ed = ed\<lparr>dragInfo := None, isPanning := False\<rparr>"

section \<open>The rotate tool\<close>



definition rotated :: "editor \<Rightarrow> rotate_object \<Rightarrow> jsnum \<times> jsnum \<Rightarrow> jsnum" where
  "rotated ed objInfo coords =
     (let currentAngle =
            jdiv (jmul (Math_atan2 (jsub (snd coords) (ri_centerY objInfo))
                          (jsub (fst coords) (ri_centerX objInfo))) (Fin 180))
              Math_PI;
          angleDiff = jsub currentAngle (ri_initialAngle objInfo);
          rotation = jadd (ri_startRotation objInfo) angleDiff
      in if snapToGrid ed then jmul (Math_round (jdiv rotation (Fin 15))) (Fin 15) else rotation)"



definition handleRotateToolUp :: "editor \<Rightarrow> editor" where
  "handleRotateToolUp ed = ed\<lparr>rotateInfo := None\<rparr>"

section \<open>The scale tool\<close>

definition scale_info :: "(ref \<Rightarrow> layer) \<Rightarrow> ref list \<Rightarrow> jsnum \<times> jsnum \<Rightarrow> string \<Rightarrow> scale_object option" where
  "scale_info h refs coords oid =
     (case find_in_layers h refs oid of
        None \<Rightarrow> None
      | Some (r, obj) \<Rightarrow>
          Some \<lparr>si_id = oid, si_layer = r, si_startX = obj_x obj, si_startY = obj_y obj,
                si_startWidth = obj_width obj, si_startHeight = obj_height obj,
                si_startMouseX = fst coords, si_startMouseY = snd coords\<rparr>)"

definition handleScaleToolDown ::
  "scene_object option \<Rightarrow> editor \<Rightarrow> jsnum \<times> jsnum \<Rightarrow> js_error + editor" where
  "handleScaleToolDown hit ed coords =
     (case hit of
        None \<Rightarrow> Inr ed
      | Some hit_object \<Rightarrow>
          let selected =
                (if obj_id hit_object \<in> set (selectedObjects ed) then selectedObjects ed
                 else [obj_id hit_object])
          in case activeScene ed of
               None \<Rightarrow> Inl TypeError
             | Some sc \<Rightarrow>
                 Inr (ed\<lparr>selectedObjects := selected,
                         scaleInfo :=
                           Some (List.map_filter (scale_info (heap ed) (scene_layers sc) coords) selected)\<rparr>))"

text \<open>The width and height one pointer move writes to an object.\<close>

definition scaled :: "editor \<Rightarrow> scale_object \<Rightarrow> jsnum \<times> jsnum \<Rightarrow> jsnum \<times> jsnum" where
  "scaled ed objInfo coords =
     (let scaleX = jdiv (jsub (fst coords) (si_startX objInfo))
                     (jsub (si_startMouseX objInfo) (si_startX objInfo));
          scaleY = jdiv (jsub (snd coords) (si_startY objInfo))
                     (jsub (si_startMouseY objInfo) (si_startY objInfo));
          width = Math_max (Fin 10) (jmul (si_startWidth objInfo) scaleX);
          height = Math_max (Fin 10) (jmul (si_startHeight objInfo) scaleY)
      in if snapToGrid ed then (snapToGridValue ed width, snapToGridValue ed height)
         else (width, height))"

fun scale_objects :: "editor \<Rightarrow> scale_object list \<Rightarrow> jsnum \<times> jsnum \<Rightarrow> editor" where
  "scale_objects ed [] coords = ed"
| "scale_objects ed (objInfo # rest) coords =
     (case find (\<lambda>ob. obj_id ob = si_id objInfo) (layer_objects (heap ed (si_layer objInfo))) of
        None \<Rightarrow> scale_objects ed rest coords
      | Some object \<Rightarrow>
          scale_objects
            (ed\<lparr>heap := update_object (heap ed) (si_layer objInfo) (\<lambda>ob. obj_id ob = si_id objInfo)
                (\<lambda>ob. ob\<lparr>obj_width := fst (scaled ed objInfo coords),
                        obj_height := snd (scaled ed objInfo coords)\<rparr>)\<rparr>)
            rest coords)"

definition handleScaleToolMove :: "editor \<Rightarrow> jsnum \<times> jsnum \<Rightarrow> editor" where
  "handleScaleToolMove ed coords =
     (case scaleInfo ed of
        Some objects \<Rightarrow> scale_objects ed objects coords
      | None \<Rightarrow> ed)"

definition handleScaleToolUp :: "editor \<Rightarrow> editor" where
  "handleScaleToolUp ed = ed\<lparr>scaleInfo := None\<rparr>"

section \<open>The tile tool\<close>

text \<open>\<open>this.app.selectedTile || 1\<close>: an unset or zero tile index gives 1.\<close>

definition selectedTile_or_1 :: "editor \<Rightarrow> int" where
  "selectedTile_or_1 ed =
     (case app_selectedTile ed of None \<Rightarrow> 1 | Some t \<Rightarrow> if t = 0 then 1 else t)"

text \<open>
  \<open>array[k] = v\<close> on a JavaScript array: an index beyond the end extends the array
  and leaves holes; a key that is not an array index (a negative, fractional or
  non-finite number, or one from \<open>2^32 - 1\<close> on) sets a named property and leaves
  the elements and the length as they are. An array has at most \<open>2^32 - 1\<close>
  elements, so a whole number below the length is an array index.
\<close>

definition array_set :: "'a option list \<Rightarrow> jsnum \<Rightarrow> 'a \<Rightarrow> 'a option list" where
  "array_set xs k v =
     (case k of
        Fin r \<Rightarrow>
          if r = of_int \<lfloor>r\<rfloor> \<and> 0 \<le> r
          then (let i = nat \<lfloor>r\<rfloor>
                in if i < length xs then xs[i := Some v]
                   else if r < 4294967295 then xs @ replicate (i - length xs) None @ [Some v]
                   else xs)
          else xs
      | _ \<Rightarrow> xs)"

text \<open>\<open>for (let i = 0; i < rows * columns; i++) tileData.push(0)\<close>\<close>

function push_zeros :: "int \<Rightarrow> int \<Rightarrow> int option list \<Rightarrow> int option list" where
  "push_zeros i n tileData =
     (if i < n then push_zeros (i + 1) n (tileData @ [Some 0]) else tileData)"
  by pat_completeness auto
termination
  by (relation "measure (\<lambda>(i, n, tileData). nat (n - i))") auto

declare push_zeros.simps [simp del]

text \<open>
  The tilemap the tool creates when the active layer has none. \<open>now\<close> is the text of
  \<open>Date.now()\<close>, \<open>tileset\<close> the id of the selected tileset.
\<close>

definition new_tilemap :: "string \<Rightarrow> scene \<Rightarrow> string \<Rightarrow> scene_object" where
  "new_tilemap now sc tileset =
     (let columns = \<lceil>scene_width sc / 32\<rceil>;
          rows = \<lceil>scene_height sc / 32\<rceil>
      in \<lparr>obj_id = ''tilemap_'' @ now, obj_type = ''tilemap'', obj_name = ''Tilemap'',
           obj_x = Fin 0, obj_y = Fin 0,
           obj_width = Fin (scene_width sc), obj_height = Fin (scene_height sc),
           obj_rotation = None, obj_tileSize = Fin 32,
           obj_columns = columns, obj_rows = rows,
           obj_tileset = Some tileset,
           obj_tileData = push_zeros 0 (rows * columns) []\<rparr>)"

definition is_tilemap :: "scene_object \<Rightarrow> bool" where
  "is_tilemap obj = (obj_type obj = ''tilemap'')"

definition tile_coord :: "jsnum \<Rightarrow> jsnum \<Rightarrow> jsnum \<Rightarrow> jsnum" where
  "tile_coord c origin tileSize = Math_floor (jdiv (jsub c origin) tileSize)"

definition outside_tilemap :: "scene_object \<Rightarrow> jsnum \<Rightarrow> jsnum \<Rightarrow> bool" where
  "outside_tilemap tilemap tileX tileY =
     (jlt tileX (Fin 0) \<or> jge tileX (Fin (of_int (obj_columns tilemap))) \<or>
      jlt tileY (Fin 0) \<or> jge tileY (Fin (of_int (obj_rows tilemap))))"

text \<open>The write \<open>tilemap.tileData[tileIndex] = ...\<close> and the note of the last cell.\<close>

definition place_tile :: "editor \<Rightarrow> ref \<Rightarrow> scene_object \<Rightarrow> jsnum \<Rightarrow> jsnum \<Rightarrow> editor" where
  "place_tile ed r tilemap tileX tileY =
     (let tileIndex = jadd (jmul tileY (Fin (of_int (obj_columns tilemap)))) tileX
      in ed\<lparr>heap := update_object (heap ed) r is_tilemap
                (\<lambda>ob. ob\<lparr>obj_tileData := array_set (obj_tileData ob) tileIndex (selectedTile_or_1 ed)\<rparr>),
            lastPlacedTile := Some (tileX, tileY)\<rparr>)"

definition handleTileToolDown :: "string \<Rightarrow> editor \<Rightarrow> jsnum \<times> jsnum \<Rightarrow> js_error + editor" where
  "handleTileToolDown now ed coords =
     (case app_tileset ed of
        None \<Rightarrow> Inr ed
      | Some tileset \<Rightarrow>
          (case activeScene ed of
             None \<Rightarrow> Inl TypeError
           | Some sc \<Rightarrow>
               (case find_layer (heap ed) (scene_layers sc) (scene_activeLayer sc) of
                  None \<Rightarrow> Inr ed
                | Some activeLayer \<Rightarrow>
                    let objects = layer_objects (heap ed activeLayer);
                        tilemap = (case find is_tilemap objects of
                                     Some tm \<Rightarrow> tm
                                   | None \<Rightarrow> new_tilemap now sc tileset);
                        ed1 = (case find is_tilemap objects of
                                 Some tm \<Rightarrow> ed
                               | None \<Rightarrow>
                                   ed\<lparr>heap := (heap ed)(activeLayer :=
                                        (heap ed activeLayer)\<lparr>layer_objects := objects @ [tilemap]\<rparr>)\<rparr>);
                        tileX = tile_coord (fst coords) (obj_x tilemap) (obj_tileSize tilemap);
                        tileY = tile_coord (snd coords) (obj_y tilemap) (obj_tileSize tilemap)
                    in if outside_tilemap tilemap tileX tileY then Inr ed1
                       else Inr (place_tile ed1 activeLayer tilemap tileX tileY))))"

definition handleTileToolMove :: "editor \<Rightarrow> jsnum \<times> jsnum \<Rightarrow> js_error + editor" where
  "handleTileToolMove ed coords =
     (if \<not> isDragging ed then Inr ed
      else case activeScene ed of
        None \<Rightarrow> Inl TypeError
      | Some sc \<Rightarrow>
          (case find_layer (heap ed) (scene_layers sc) (scene_activeLayer sc) of
             None \<Rightarrow> Inr ed
           | Some activeLayer \<Rightarrow>
               (case find is_tilemap (layer_objects (heap ed activeLayer)) of
                  None \<Rightarrow> Inr ed
                | Some tilemap \<Rightarrow>
                    let tileX = tile_coord (fst coords) (obj_x tilemap) (obj_tileSize tilemap);
                        tileY = tile_coord (snd coords) (obj_y tilemap) (obj_tileSize tilemap)
                    in if outside_tilemap tilemap tileX tileY then Inr ed
                       else if (case lastPlacedTile ed of
                                  None \<Rightarrow> False
                                | Some (lastX, lastY) \<Rightarrow> jeq lastX tileX \<and> jeq lastY tileY)
                       then Inr ed
                       else Inr (place_tile ed activeLayer tilemap tileX tileY))))"

definition handleTileToolUp :: "editor \<Rightarrow> editor" where
  "handleTileToolUp ed = ed\<lparr>lastPlacedTile := None\<rparr>"

text \<open>
  The tilemap a pointer-down of the tile tool resolves: the first one of the active
  layer, or the one it creates when the layer has none; \<open>None\<close> when the handler
  returns or raises before that.
\<close>

definition resolved_tilemap :: "string \<Rightarrow> editor \<Rightarrow> scene_object option" where
  "resolved_tilemap now ed =
     (case app_tileset ed of
        None \<Rightarrow> None
      | Some tileset \<Rightarrow>
          (case activeScene ed of
             None \<Rightarrow> None
           | Some sc \<Rightarrow>
               (case find_layer (heap ed) (scene_layers sc) (scene_activeLayer sc) of
                  None \<Rightarrow> None
                | Some activeLayer \<Rightarrow>
                    (case find is_tilemap (layer_objects (heap ed activeLayer)) of
                       Some tm \<Rightarrow> Some tm
                     | None \<Rightarrow> Some (new_tilemap now sc tileset)))))"

text \<open>The tilemap the tile tool finds: the first one of the active layer.\<close>

definition active_tilemap :: "editor \<Rightarrow> scene_object option" where
  "active_tilemap ed =
     (case activeScene ed of
        None \<Rightarrow> None
      | Some sc \<Rightarrow>
          (case find_layer (heap ed) (scene_layers sc) (scene_activeLayer sc) of
             None \<Rightarrow> None
           | Some r \<Rightarrow> find is_tilemap (layer_objects (heap ed r))))"

section \<open>New and loaded scenes\<close>

record scene_config =
  cfg_id :: "string option"
  cfg_name :: "string option"
  cfg_width :: "real option"
  cfg_height :: "real option"
  cfg_backgroundColor :: "string option"

text \<open>\<open>a || b\<close> on an optional string and on an optional number: the empty string
  and zero are falsy.\<close>

definition string_or :: "string option \<Rightarrow> string \<Rightarrow> string" where
  "string_or a b = (case a of None \<Rightarrow> b | Some s \<Rightarrow> if s = [] then b else s)"

definition real_or :: "real option \<Rightarrow> real \<Rightarrow> real" where
  "real_or a b = (case a of None \<Rightarrow> b | Some x \<Rightarrow> if x = 0 then b else x)"

definition empty_layer :: "string \<Rightarrow> string \<Rightarrow> layer" where
  "empty_layer i n = \<lparr>layer_id = i, layer_name = n, layer_visible = True, layer_objects = []\<rparr>"

text \<open>The three layers of a new scene are new objects, at the next free addresses.\<close>

definition onNewScene :: "string \<Rightarrow> editor \<Rightarrow> scene_config \<Rightarrow> editor" where
  "onNewScene now ed sceneConfig =
     (let a = heap_next ed
      in ed\<lparr>heap := (heap ed)
                (a := empty_layer ''layer_1'' ''Background'',
                 a + 1 := empty_layer ''layer_2'' ''Main'',
                 a + 2 := empty_layer ''layer_3'' ''Foreground''),
            heap_next := a + 3,
            activeScene := Some
              \<lparr>scene_id = string_or (cfg_id sceneConfig) (''scene_'' @ now),
               scene_name = string_or (cfg_name sceneConfig) ''New Scene'',
               scene_width = real_or (cfg_width sceneConfig) 800,
               scene_height = real_or (cfg_height sceneConfig) 600,
               scene_backgroundColor = string_or (cfg_backgroundColor sceneConfig) ''#87CEEB'',
               scene_layers = [a, a + 1, a + 2],
               scene_activeLayer = ''layer_2''\<rparr>,
            selectedObjects := [],
            zoom := Fin 1,
            panOffset := (Fin 0, Fin 0)\<rparr>)"

text \<open>The loaded scene is the caller's object; its layers are in the store already.\<close>

definition onLoadScene :: "editor \<Rightarrow> scene option \<Rightarrow> editor" where
  "onLoadScene ed sc =
     ed\<lparr>activeScene := sc, selectedObjects := [], zoom := Fin 1, panOffset := (Fin 0, Fin 0)\<rparr>"

section \<open>Example states\<close>

text \<open>
  An editor as the constructor and \<open>createDefaultScene\<close> leave it (an 800 by 600
  scene on a canvas of the same size, grid size 32, snapping on, zoom 1, no pan), with
  one layer, the active one, at address 0, holding the given objects.
\<close>

definition rect_object :: "string \<Rightarrow> real \<Rightarrow> real \<Rightarrow> real \<Rightarrow> real \<Rightarrow> scene_object" where
  "rect_object i x y w h =
     \<lparr>obj_id = i, obj_type = ''rectangle'', obj_name = ''Rectangle'',
      obj_x = Fin x, obj_y = Fin y, obj_width = Fin w, obj_height = Fin h,
      obj_rotation = None, obj_tileSize = Fin 0, obj_columns = 0, obj_rows = 0,
      obj_tileset = None, obj_tileData = []\<rparr>"

definition default_scene :: scene where
  "default_scene =
     \<lparr>scene_id = ''scene_1'', scene_name = ''Untitled Scene'',
      scene_width = 800, scene_height = 600, scene_backgroundColor = ''#87CEEB'',
      scene_layers = [0], scene_activeLayer = ''layer_2''\<rparr>"

definition one_layer_editor :: "scene_object list \<Rightarrow> editor" where
  "one_layer_editor objects =
     \<lparr>heap = (\<lambda>_. \<lparr>layer_id = ''layer_2'', layer_name = ''Main'', layer_visible = True,
                     layer_objects = objects\<rparr>),
      heap_next = 1,
      canvas = Some (Fin 800, Fin 600), ctx = True,
      activeScene = Some default_scene,
      selectedObjects = [], gridSize = Fin 32, showGrid = True, snapToGrid = True,
      zoom = Fin 1, panOffset = (Fin 0, Fin 0), isDragging = False, isPanning = False,
      activeTool = ''select'', dragInfo = None, rotateInfo = None, scaleInfo = None,
      lastPlacedTile = None, app_tileset = None, app_selectedTile = None\<rparr>"

text \<open>
  Scenario C: the move tool is dragging the selected object, which started at (0, 0),
  at zoom 2.
\<close>

definition scenario_C :: editor where
  "scenario_C =
     (one_layer_editor [rect_object ''object_1'' 0 0 50 50])
       \<lparr>selectedObjects := [''object_1''], zoom := Fin 2, activeTool := ''move'', isDragging := True,
        dragInfo := Some [\<lparr>di_id = ''object_1'', di_layer = 0, di_startX = Fin 0, di_startY = Fin 0\<rparr>]\<rparr>"

text \<open>
  Scenario D: the tile tool, with a tileset selected and the pointer down, on a layer
  whose tilemap lies at the origin and has 10 columns and 10 rows of 32 by 32 tiles, all
  empty.
\<close>

definition tilemap_10x10 :: scene_object where
  "tilemap_10x10 =
     \<lparr>obj_id = ''tilemap_1'', obj_type = ''tilemap'', obj_name = ''Tilemap'',
      obj_x = Fin 0, obj_y = Fin 0, obj_width = Fin 320, obj_height = Fin 320,
      obj_rotation = None, obj_tileSize = Fin 32, obj_columns = 10, obj_rows = 10,
      obj_tileset = Some ''tileset_1'', obj_tileData = replicate 100 (Some 0)\<rparr>"

definition tile_tool_editor :: "scene_object list \<Rightarrow> editor" where
  "tile_tool_editor objects =
     (one_layer_editor objects)
       \<lparr>activeTool := ''tile'', isDragging := True, app_tileset := Some ''tileset_1''\<rparr>"

definition scenario_D :: editor where
  "scenario_D = tile_tool_editor [tilemap_10x10]"

text \<open>Scenario D with tile 7 selected, and the tile tool on a scene of width -64.\<close>

definition scenario_D_tile_7 :: editor where
  "scenario_D_tile_7 = scenario_D\<lparr>app_selectedTile := Some 7\<rparr>"

definition negative_width_editor :: editor where
  "negative_width_editor =
     (tile_tool_editor [])\<lparr>activeScene := Some (default_scene\<lparr>scene_width := - 64\<rparr>)\<rparr>"



definition scale_tool_editor :: editor where
  "scale_tool_editor =
     (one_layer_editor [rect_object ''object_1'' 100 100 50 50])
       \<lparr>activeTool := ''scale'', snapToGrid := False\<rparr>"

section \<open>The angle of the pointer\<close>

text \<open>
  The claim's angle of the pointer \<open>(px, py)\<close> around the centre \<open>(cx, cy)\<close>: by
  \<open>atan2\<close>, in degrees.
\<close>

definition angle_deg :: "real \<Rightarrow> real \<Rightarrow> real \<Rightarrow> real \<Rightarrow> real" where
  "angle_deg cx cy px py = atan2 (py - cy) (px - cx) * 180 / pi"

section \<open>A scale drag that starts on the object's edge\<close>

text \<open>
  What \<open>Math.max(10, startSize * scale)\<close> comes to when the scale factor's divisor
  is zero, that is when the drag began with the pointer at the object's own x (or y):
  \<open>d\<close> is the pointer's present distance from there and \<open>start\<close> the start width
  (or height).
\<close>

definition size_at_zero_divisor :: "real \<Rightarrow> real \<Rightarrow> jsnum" where
  "size_at_zero_divisor d start =
     (if d = 0 \<or> start = 0 then NaN else if 0 < d * start then PInf else Fin 10)"

text \<open>
  The scale tool after a pointer-down on the top left corner of the rectangle, at
  (100, 100): both divisors of the scale factors are zero.
\<close>

definition scaling_from_corner :: editor where
  "scaling_from_corner =
     scale_tool_editor
       \<lparr>selectedObjects := [''object_1''],
        scaleInfo := Some [\<lparr>si_id = ''object_1'', si_layer = 0, si_startX = Fin 100,
          si_startY = Fin 100, si_startWidth = Fin 50, si_startHeight = Fin 50,
          si_startMouseX = Fin 100, si_startMouseY = Fin 100\<rparr>]\<rparr>"

section \<open>The invariant of tilemaps\<close>

text \<open>
  The spec's invariant \<open>tileData.length == columns * rows\<close>, for one tilemap and for
  every tilemap of every layer.
\<close>

definition tilemap_consistent :: "scene_object \<Rightarrow> bool" where
  "tilemap_consistent ob = (int (length (obj_tileData ob)) = obj_columns ob * obj_rows ob)"

definition all_tilemaps_consistent :: "editor \<Rightarrow> bool" where
  "all_tilemaps_consistent ed =
     (\<forall>r. \<forall>ob \<in> set (layer_objects (heap ed r)). is_tilemap ob \<longrightarrow> tilemap_consistent ob)"

section \<open>Lemmas on the helpers\<close>

subsection \<open>Objects of a layer and the move tool\<close>

lemma jsub_Fin [simp]: "jsub (Fin a) (Fin b) = Fin (a - b)"
  by (simp add: jsub_def)

lemma find_update_first:
  "find p xs = Some x \<Longrightarrow> p (f x) \<Longrightarrow> find p (update_first p f xs) = Some (f x)"
  by (induction xs) (auto split: if_splits)

lemma find_update_first_other:
  "(\<And>x. q (f x) = q x) \<Longrightarrow> (\<And>x. p x \<Longrightarrow> \<not> q x) \<Longrightarrow> find q (update_first p f xs) = find q xs"
  by (induction xs) (auto split: if_splits)

lemma snapToGridValue_heap [simp]: "snapToGridValue (ed\<lparr>heap := h\<rparr>) v = snapToGridValue ed v"
  by (simp add: snapToGridValue_def)

lemma find_by_id_update_object_same:
  assumes "find (\<lambda>ob. obj_id ob = oid) (layer_objects (h r)) = Some obj"
    and "\<And>ob. obj_id (f ob) = obj_id ob"
  shows "find (\<lambda>ob. obj_id ob = oid) (layer_objects (update_object h r (\<lambda>ob. obj_id ob = oid) f r)) = Some (f obj)"
proof -
  from assms(1) have "obj_id obj = oid"
    by (auto simp: find_Some_iff)
  with assms show ?thesis
    by (simp add: update_object_def find_update_first)
qed

lemma find_by_id_update_object_other:
  assumes "(r', oid') \<noteq> (r, oid)" and "\<And>ob. obj_id (f ob) = obj_id ob"
  shows "find (\<lambda>ob. obj_id ob = oid') (layer_objects (update_object h r (\<lambda>ob. obj_id ob = oid) f r'))
           = find (\<lambda>ob. obj_id ob = oid') (layer_objects (h r'))"
proof (cases "r' = r")
  case True
  with assms(1) have "oid' \<noteq> oid" by simp
  have "find (\<lambda>ob. obj_id ob = oid') (update_first (\<lambda>ob. obj_id ob = oid) f (layer_objects (h r)))
          = find (\<lambda>ob. obj_id ob = oid') (layer_objects (h r))"
    by (rule find_update_first_other) (use \<open>oid' \<noteq> oid\<close> assms(2) in auto)
  with True show ?thesis
    by (simp add: update_object_def)
next
  case False
  then show ?thesis by (simp add: update_object_def)
qed

lemma move_objects_untouched:
  "(r, oid) \<notin> set (map (\<lambda>i. (di_layer i, di_id i)) infos) \<Longrightarrow>
   find (\<lambda>ob. obj_id ob = oid) (layer_objects (heap (move_objects ed infos dx dy) r))
     = find (\<lambda>ob. obj_id ob = oid) (layer_objects (heap ed r))"
proof (induction infos arbitrary: ed)
  case Nil
  then show ?case by simp
next
  case (Cons j infos)
  then have ne: "(r, oid) \<noteq> (di_layer j, di_id j)" and rest: "(r, oid) \<notin> set (map (\<lambda>i. (di_layer i, di_id i)) infos)"
    by auto
  show ?case
    using Cons.IH [OF rest] find_by_id_update_object_other [OF ne]
    by (simp add: Let_def split: option.splits)
qed

lemma move_objects_unchanged [simp]:
  "zoom (move_objects ed infos dx dy) = zoom ed"
  "snapToGrid (move_objects ed infos dx dy) = snapToGrid ed"
  "gridSize (move_objects ed infos dx dy) = gridSize ed"
  by (induction infos arbitrary: ed) (auto simp: Let_def split: option.splits)

lemma move_objects_target:
  assumes "i \<in> set infos"
    and "distinct (map (\<lambda>i. (di_layer i, di_id i)) infos)"
    and "find (\<lambda>ob. obj_id ob = di_id i) (layer_objects (heap ed (di_layer i))) = Some obj"
  shows "find (\<lambda>ob. obj_id ob = di_id i) (layer_objects (heap (move_objects ed infos dx dy) (di_layer i)))
           = Some (obj\<lparr>obj_x := snapToGridValue ed (jadd (di_startX i) (jdiv dx (zoom ed))),
                       obj_y := snapToGridValue ed (jadd (di_startY i) (jdiv dy (zoom ed)))\<rparr>)"
  using assms
proof (induction infos arbitrary: ed obj)
  case Nil
  then show ?case by simp
next
  case (Cons j infos)
  show ?case
  proof (cases "(di_layer j, di_id j) = (di_layer i, di_id i)")
    case True
    with Cons.prems(2) have un: "(di_layer i, di_id i) \<notin> set (map (\<lambda>i. (di_layer i, di_id i)) infos)"
      by auto
    with Cons.prems(1) True have ij: "j = i" by force
    show ?thesis
      using Cons.prems(3) ij move_objects_untouched [OF un]
      by (simp add: Let_def find_by_id_update_object_same)
  next
    case False
    with Cons.prems have mem: "i \<in> set infos" and dist: "distinct (map (\<lambda>i. (di_layer i, di_id i)) infos)"
      by auto
    from False have ne: "(di_layer i, di_id i) \<noteq> (di_layer j, di_id j)" by auto
    show ?thesis
    proof (cases "find (\<lambda>ob. obj_id ob = di_id j) (layer_objects (heap ed (di_layer j)))")
      case None
      then show ?thesis using Cons.IH [OF mem dist Cons.prems(3)] by simp
    next
      case (Some a)
      let ?ed' = "ed\<lparr>heap := update_object (heap ed) (di_layer j) (\<lambda>ob. obj_id ob = di_id j)
                   (\<lambda>ob. ob\<lparr>obj_x := snapToGridValue ed (jadd (di_startX j) (jdiv dx (zoom ed))),
                             obj_y := snapToGridValue ed (jadd (di_startY j) (jdiv dy (zoom ed)))\<rparr>)\<rparr>"
      have "find (\<lambda>ob. obj_id ob = di_id i) (layer_objects (heap ?ed' (di_layer i))) = Some obj"
        using Cons.prems(3) find_by_id_update_object_other [OF ne] by simp
      from Cons.IH [OF mem dist this] Some show ?thesis
        by (simp add: Let_def)
    qed
  qed
qed

subsection \<open>The tile tool\<close>

lemma push_zeros_replicate: "push_zeros i n tileData = tileData @ replicate (nat (n - i)) (Some 0)"
proof (induction i n tileData rule: push_zeros.induct)
  case (1 i n tileData)
  show ?case
  proof (cases "i < n")
    case True
    then have "nat (n - i) = Suc (nat (n - (i + 1)))" by simp
    with True "1" show ?thesis
      by (subst push_zeros.simps) (simp add: replicate_append_same)
  next
    case False
    then show ?thesis by (subst push_zeros.simps) simp
  qed
qed

lemma array_set_index:
  "0 \<le> i \<Longrightarrow> nat i < length xs \<Longrightarrow> array_set xs (Fin (of_int i)) v = xs[nat i := Some v]"
  by (simp add: array_set_def)

lemma array_set_not_index [simp]:
  "array_set xs NaN v = xs" "array_set xs PInf v = xs" "array_set xs NInf v = xs"
  by (simp_all add: array_set_def)

lemma array_set_zero_cell:
  assumes "v \<noteq> 0" and "j < length (array_set xs k v)" and "array_set xs k v ! j = Some 0"
  shows "j < length xs \<and> xs ! j = Some 0"
proof (cases k)
  case (Fin r)
  show ?thesis
  proof (cases "r = of_int \<lfloor>r\<rfloor> \<and> 0 \<le> r")
    case True
    let ?i = "nat \<lfloor>r\<rfloor>"
    show ?thesis
    proof (cases "?i < length xs")
      case in_range: True
      with True Fin assms show ?thesis
        by (cases "j = ?i") (auto simp: array_set_def Let_def)
    next
      case beyond: False
      show ?thesis
      proof (cases "r < 4294967295")
        case small: True
        with True Fin beyond have eq: "array_set xs k v = xs @ replicate (?i - length xs) None @ [Some v]"
          by (simp add: array_set_def Let_def)
        show ?thesis
        proof (cases "j < length xs")
          case True
          with assms(3) eq show ?thesis by (simp add: nth_append)
        next
          case False
          with assms eq show ?thesis
            by (auto simp: nth_append nth_Cons' split: if_splits)
        qed
      next
        case False
        with True Fin beyond assms show ?thesis by (simp add: array_set_def Let_def)
      qed
    qed
  next
    case False
    with Fin assms show ?thesis by (auto simp: array_set_def)
  qed
qed (use assms in simp_all)

lemma Math_floor_cases:
  obtains (int) n where "Math_floor a = Fin (of_int n)" | (special) "Math_floor a = PInf \<or> Math_floor a = NInf \<or> Math_floor a = NaN"
  by (cases a) auto

lemma tile_coord_Fin:
  "s \<noteq> 0 \<Longrightarrow> tile_coord (Fin p) (Fin t) (Fin s) = Fin (of_int \<lfloor>(p - t) / s\<rfloor>)"
  by (simp add: tile_coord_def jsub_def)

lemma outside_tilemap_Fin:
  "outside_tilemap tm (Fin (of_int col)) (Fin (of_int row))
     = (col < 0 \<or> obj_columns tm \<le> col \<or> row < 0 \<or> obj_rows tm \<le> row)"
  by (simp add: outside_tilemap_def)

lemma tile_index_Fin:
  "jadd (jmul (Fin (of_int row)) (Fin (of_int cols))) (Fin (of_int col)) = Fin (of_int (row * cols + col))"
  by simp

lemma tile_index_in_range:
  assumes "0 \<le> col" "col < cols" "0 \<le> row" "row < rows"
  shows "0 \<le> row * cols + col" and "row * cols + col < cols * (rows::int)"
proof -
  from assms show "0 \<le> row * cols + col" by simp
  from assms have "row + 1 \<le> rows" by simp
  then have "(row + 1) * cols \<le> rows * cols"
    using assms(1,2) by (intro mult_right_mono) auto
  then show "row * cols + col < cols * rows"
    using assms(2) by (simp add: algebra_simps)
qed

lemma find_layer_update_object [simp]:
  "find_layer (update_object h r p f) refs lid = find_layer h refs lid"
proof -
  have "(\<lambda>r'. layer_id (update_object h r p f r') = lid) = (\<lambda>r'. layer_id (h r') = lid)"
    by (auto simp: update_object_def fun_eq_iff)
  then show ?thesis by (simp add: find_layer_def)
qed

lemma layer_objects_update_object [simp]:
  "layer_objects (update_object h r p f r) = update_first p f (layer_objects (h r))"
  by (simp add: update_object_def)

lemma active_tilemap_SomeD:
  assumes "active_tilemap ed = Some tm"
  obtains sc r where "activeScene ed = Some sc"
    and "find_layer (heap ed) (scene_layers sc) (scene_activeLayer sc) = Some r"
    and "find is_tilemap (layer_objects (heap ed r)) = Some tm"
  using assms by (auto simp: active_tilemap_def split: option.splits)

lemma find_is_tilemap [simp]: "find is_tilemap xs = Some tm \<Longrightarrow> is_tilemap tm"
  by (auto simp: find_Some_iff)

lemma handleTileToolDown_existing:
  assumes "app_tileset ed = Some ts" and "activeScene ed = Some sc"
    and "find_layer (heap ed) (scene_layers sc) (scene_activeLayer sc) = Some r"
    and "find is_tilemap (layer_objects (heap ed r)) = Some tm"
  shows "handleTileToolDown now ed coords =
           (if outside_tilemap tm (tile_coord (fst coords) (obj_x tm) (obj_tileSize tm))
                 (tile_coord (snd coords) (obj_y tm) (obj_tileSize tm))
            then Inr ed
            else Inr (place_tile ed r tm (tile_coord (fst coords) (obj_x tm) (obj_tileSize tm))
                        (tile_coord (snd coords) (obj_y tm) (obj_tileSize tm))))"
  using assms by (simp add: handleTileToolDown_def Let_def)

lemma handleTileToolMove_existing:
  assumes "isDragging ed" and "activeScene ed = Some sc"
    and "find_layer (heap ed) (scene_layers sc) (scene_activeLayer sc) = Some r"
    and "find is_tilemap (layer_objects (heap ed r)) = Some tm"
  shows "handleTileToolMove ed coords =
           (if outside_tilemap tm (tile_coord (fst coords) (obj_x tm) (obj_tileSize tm))
                 (tile_coord (snd coords) (obj_y tm) (obj_tileSize tm))
            then Inr ed
            else if (case lastPlacedTile ed of None \<Rightarrow> False
                     | Some (lastX, lastY) \<Rightarrow>
                         jeq lastX (tile_coord (fst coords) (obj_x tm) (obj_tileSize tm)) \<and>
                         jeq lastY (tile_coord (snd coords) (obj_y tm) (obj_tileSize tm)))
            then Inr ed
            else Inr (place_tile ed r tm (tile_coord (fst coords) (obj_x tm) (obj_tileSize tm))
                        (tile_coord (snd coords) (obj_y tm) (obj_tileSize tm))))"
  using assms by (simp add: handleTileToolMove_def Let_def)

lemma active_tilemap_place_tile:
  assumes "activeScene ed = Some sc"
    and "find_layer (heap ed) (scene_layers sc) (scene_activeLayer sc) = Some r"
    and "find is_tilemap (layer_objects (heap ed r)) = Some tm"
  shows "active_tilemap (place_tile ed r tm' tileX tileY) =
           Some (tm\<lparr>obj_tileData := array_set (obj_tileData tm)
                   (jadd (jmul tileY (Fin (of_int (obj_columns tm')))) tileX) (selectedTile_or_1 ed)\<rparr>)"
proof -
  let ?f = "\<lambda>ob. ob\<lparr>obj_tileData := array_set (obj_tileData ob)
                   (jadd (jmul tileY (Fin (of_int (obj_columns tm')))) tileX) (selectedTile_or_1 ed)\<rparr>"
  have "is_tilemap (?f tm)"
    using find_is_tilemap [OF assms(3)] by (simp add: is_tilemap_def)
  then have "find is_tilemap (update_first is_tilemap ?f (layer_objects (heap ed r))) = Some (?f tm)"
    using assms(3) by (rule find_update_first [rotated])
  then show ?thesis
    using assms(1,2) by (simp add: active_tilemap_def place_tile_def Let_def)
qed

lemma handleTileToolDown_created:
  assumes "app_tileset ed = Some ts" and "activeScene ed = Some sc"
    and "find_layer (heap ed) (scene_layers sc) (scene_activeLayer sc) = Some r"
    and "find is_tilemap (layer_objects (heap ed r)) = None"
  shows "handleTileToolDown now ed coords =
           (if outside_tilemap (new_tilemap now sc ts) (tile_coord (fst coords) (Fin 0) (Fin 32))
                 (tile_coord (snd coords) (Fin 0) (Fin 32))
            then Inr (ed\<lparr>heap := (heap ed)(r := (heap ed r)
                        \<lparr>layer_objects := layer_objects (heap ed r) @ [new_tilemap now sc ts]\<rparr>)\<rparr>)
            else Inr (place_tile
                        (ed\<lparr>heap := (heap ed)(r := (heap ed r)
                            \<lparr>layer_objects := layer_objects (heap ed r) @ [new_tilemap now sc ts]\<rparr>)\<rparr>)
                        r (new_tilemap now sc ts) (tile_coord (fst coords) (Fin 0) (Fin 32))
                        (tile_coord (snd coords) (Fin 0) (Fin 32))))"
proof -
  have "obj_x (new_tilemap now sc ts) = Fin 0" "obj_y (new_tilemap now sc ts) = Fin 0"
    "obj_tileSize (new_tilemap now sc ts) = Fin 32"
    by (simp_all add: new_tilemap_def Let_def)
  with assms show ?thesis
    by (simp add: handleTileToolDown_def Let_def)
qed

lemma handleTileToolDown_no_layer:
  assumes "activeScene ed = Some sc"
    and "find_layer (heap ed) (scene_layers sc) (scene_activeLayer sc) = None"
  shows "handleTileToolDown now ed coords = Inr ed"
  using assms by (simp add: handleTileToolDown_def split: option.splits)

lemma handleTileToolMove_no_layer:
  assumes "activeScene ed = Some sc"
    and "find_layer (heap ed) (scene_layers sc) (scene_activeLayer sc) = None"
  shows "handleTileToolMove ed coords = Inr ed"
  using assms by (simp add: handleTileToolMove_def)

lemma handleTileToolMove_no_tilemap:
  assumes "activeScene ed = Some sc"
    and "find_layer (heap ed) (scene_layers sc) (scene_activeLayer sc) = Some r"
    and "find is_tilemap (layer_objects (heap ed r)) = None"
  shows "handleTileToolMove ed coords = Inr ed"
  using assms by (simp add: handleTileToolMove_def)

lemma set_update_first:
  "find p xs = Some x \<Longrightarrow> set (update_first p f xs) \<subseteq> insert (f x) (set xs)"
  by (induction xs) (auto split: if_splits)

lemma find_Some_mem: "find p xs = Some x \<Longrightarrow> x \<in> set xs"
  by (auto simp: find_Some_iff)

lemma find_append_new: "find p xs = None \<Longrightarrow> p x \<Longrightarrow> find p (xs @ [x]) = Some x"
  by (induction xs) (auto split: if_splits)

lemma new_tilemap_fields:
  "obj_columns (new_tilemap now sc ts) = \<lceil>scene_width sc / 32\<rceil>"
  "obj_rows (new_tilemap now sc ts) = \<lceil>scene_height sc / 32\<rceil>"
  "obj_tileData (new_tilemap now sc ts)
     = replicate (nat (\<lceil>scene_height sc / 32\<rceil> * \<lceil>scene_width sc / 32\<rceil>)) (Some 0)"
  "is_tilemap (new_tilemap now sc ts)"
  by (simp_all add: new_tilemap_def Let_def push_zeros_replicate is_tilemap_def)

lemma array_set_length_in_bounds:
  assumes "int (length xs) = cols * rows"
    and "\<not> (jlt (Math_floor a) (Fin 0) \<or> jge (Math_floor a) (Fin (of_int cols)) \<or>
            jlt (Math_floor b) (Fin 0) \<or> jge (Math_floor b) (Fin (of_int rows)))"
  shows "length (array_set xs (jadd (jmul (Math_floor b) (Fin (of_int cols))) (Math_floor a)) v) = length xs"
proof (cases rule: Math_floor_cases [of a])
  case (int col)
  show ?thesis
  proof (cases rule: Math_floor_cases [of b])
    case row: (int row)
    from assms(2) int row have b: "0 \<le> col" "col < cols" "0 \<le> row" "row < rows"
      by simp_all
    from tile_index_in_range [OF b] assms(1)
    have "0 \<le> row * cols + col" and "nat (row * cols + col) < length xs"
      by simp_all
    then have "array_set xs (Fin (of_int (row * cols + col))) v = xs[nat (row * cols + col) := Some v]"
      by (rule array_set_index)
    then show ?thesis
      unfolding int row tile_index_Fin by simp
  next
    case special
    with assms(2) have "Math_floor b = NaN" by auto
    then show ?thesis by simp
  qed
next
  case special
  with assms(2) have "Math_floor a = NaN" by auto
  then show ?thesis by (cases "jmul (Math_floor b) (Fin (real_of_int cols))") simp_all
qed

lemma place_tile_consistent:
  assumes "all_tilemaps_consistent ed"
    and "find is_tilemap (layer_objects (heap ed r)) = Some tm"
    and "\<not> outside_tilemap tm (tile_coord x ox s) (tile_coord y oy s)"
  shows "all_tilemaps_consistent (place_tile ed r tm (tile_coord x ox s) (tile_coord y oy s))"
proof -
  let ?k = "jadd (jmul (tile_coord y oy s) (Fin (of_int (obj_columns tm)))) (tile_coord x ox s)"
  let ?f = "\<lambda>ob. ob\<lparr>obj_tileData := array_set (obj_tileData ob) ?k (selectedTile_or_1 ed)\<rparr>"
  have tm: "tm \<in> set (layer_objects (heap ed r))" "is_tilemap tm"
    using assms(2) by (simp_all add: find_Some_mem)
  with assms(1) have "tilemap_consistent tm"
    by (auto simp: all_tilemaps_consistent_def)
  then have "length (array_set (obj_tileData tm) ?k (selectedTile_or_1 ed)) = length (obj_tileData tm)"
    using assms(3) unfolding tile_coord_def outside_tilemap_def tilemap_consistent_def
    by (rule array_set_length_in_bounds)
  with \<open>tilemap_consistent tm\<close> have new: "tilemap_consistent (?f tm)"
    by (simp add: tilemap_consistent_def)
  have "is_tilemap ob \<longrightarrow> tilemap_consistent ob"
    if "ob \<in> set (layer_objects (heap (place_tile ed r tm (tile_coord x ox s) (tile_coord y oy s)) r'))"
    for r' ob
  proof (cases "r' = r")
    case True
    with that have "ob \<in> set (update_first is_tilemap ?f (layer_objects (heap ed r)))"
      by (simp add: place_tile_def Let_def)
    with set_update_first [OF assms(2), of ?f] have "ob = ?f tm \<or> ob \<in> set (layer_objects (heap ed r))"
      by auto
    with new assms(1) show ?thesis
      by (auto simp: all_tilemaps_consistent_def)
  next
    case False
    with that have "ob \<in> set (layer_objects (heap ed r'))"
      by (simp add: place_tile_def Let_def update_object_def)
    with assms(1) show ?thesis
      by (auto simp: all_tilemaps_consistent_def)
  qed
  then show ?thesis
    unfolding all_tilemaps_consistent_def by blast
qed

lemma add_tilemap_consistent:
  assumes "all_tilemaps_consistent ed" and "tilemap_consistent tm"
  shows "all_tilemaps_consistent
           (ed\<lparr>heap := (heap ed)(r := (heap ed r)\<lparr>layer_objects := layer_objects (heap ed r) @ [tm]\<rparr>)\<rparr>)"
  using assms by (auto simp: all_tilemaps_consistent_def)

lemma handleTileToolMove_consistent:
  assumes "activeScene ed = Some sc" and "all_tilemaps_consistent ed"
  shows "\<exists>ed'. handleTileToolMove ed coords = Inr ed' \<and> all_tilemaps_consistent ed'"
proof (cases "find_layer (heap ed) (scene_layers sc) (scene_activeLayer sc)")
  case None
  with assms show ?thesis by (simp add: handleTileToolMove_no_layer)
next
  case (Some r)
  show ?thesis
  proof (cases "find is_tilemap (layer_objects (heap ed r))")
    case None
    with assms Some show ?thesis by (simp add: handleTileToolMove_no_tilemap)
  next
    case tm: (Some tm)
    show ?thesis
    proof (cases "isDragging ed")
      case True
      let ?X = "tile_coord (fst coords) (obj_x tm) (obj_tileSize tm)"
      let ?Y = "tile_coord (snd coords) (obj_y tm) (obj_tileSize tm)"
      have "handleTileToolMove ed coords = Inr ed \<or>
          (\<not> outside_tilemap tm ?X ?Y \<and> handleTileToolMove ed coords = Inr (place_tile ed r tm ?X ?Y))"
        unfolding handleTileToolMove_existing [OF True assms(1) Some tm] by simp
      then show ?thesis
        using assms(2) place_tile_consistent [OF assms(2) tm] by blast
    next
      case False
      with assms show ?thesis by (simp add: handleTileToolMove_def)
    qed
  qed
qed

lemma selectedTile_or_1_nonzero: "selectedTile_or_1 ed \<noteq> 0"
  by (simp add: selectedTile_or_1_def split: option.splits)

lemma array_set_consistent:
  assumes "tilemap_consistent tm"
    and "0 \<le> col" and "col < obj_columns tm" and "0 \<le> row" and "row < obj_rows tm"
  shows "nat (row * obj_columns tm + col) < length (obj_tileData tm)"
    and "array_set (obj_tileData tm) (Fin (of_int (row * obj_columns tm + col))) v
           = (obj_tileData tm)[nat (row * obj_columns tm + col) := Some v]"
proof -
  have "0 \<le> row * obj_columns tm + col" and "row * obj_columns tm + col < obj_columns tm * obj_rows tm"
    using tile_index_in_range [OF assms(2-5)] by simp_all
  with assms(1) show "nat (row * obj_columns tm + col) < length (obj_tileData tm)"
    by (simp add: tilemap_consistent_def)
  with \<open>0 \<le> row * obj_columns tm + col\<close>
  show "array_set (obj_tileData tm) (Fin (of_int (row * obj_columns tm + col))) v
           = (obj_tileData tm)[nat (row * obj_columns tm + col) := Some v]"
    by (intro array_set_index)
qed

lemma tile_handlers_existing_result:
  assumes "active_tilemap ed = Some tm"
    and "handleTileToolDown now ed coords = Inr ed' \<or> handleTileToolMove ed coords = Inr ed'"
  shows "ed' = ed \<or>
         (\<exists>k. active_tilemap ed' =
                 Some (tm\<lparr>obj_tileData := array_set (obj_tileData tm) k (selectedTile_or_1 ed)\<rparr>))"
proof -
  from assms(1) obtain sc r where sc: "activeScene ed = Some sc"
    and r: "find_layer (heap ed) (scene_layers sc) (scene_activeLayer sc) = Some r"
    and tm: "find is_tilemap (layer_objects (heap ed r)) = Some tm"
    by (rule active_tilemap_SomeD)
  let ?X = "tile_coord (fst coords) (obj_x tm) (obj_tileSize tm)"
  let ?Y = "tile_coord (snd coords) (obj_y tm) (obj_tileSize tm)"
  have down: "handleTileToolDown now ed coords = Inr ed \<or>
      handleTileToolDown now ed coords = Inr (place_tile ed r tm ?X ?Y)"
  proof (cases "app_tileset ed")
    case None
    then show ?thesis by (simp add: handleTileToolDown_def)
  next
    case (Some ts)
    show ?thesis
      unfolding handleTileToolDown_existing [OF Some sc r tm] by simp
  qed
  have move: "handleTileToolMove ed coords = Inr ed \<or>
      handleTileToolMove ed coords = Inr (place_tile ed r tm ?X ?Y)"
  proof (cases "isDragging ed")
    case True
    show ?thesis
      unfolding handleTileToolMove_existing [OF True sc r tm] by simp
  next
    case False
    then show ?thesis by (simp add: handleTileToolMove_def)
  qed
  from assms(2) down move have "ed' = ed \<or> ed' = place_tile ed r tm ?X ?Y"
    by auto
  then show ?thesis
    using active_tilemap_place_tile [OF sc r tm, of tm ?X ?Y] by blast
qed

subsection \<open>The rotate and scale tools\<close>

lemma rotated_heap [simp]: "rotated (ed\<lparr>heap := h\<rparr>) objInfo coords = rotated ed objInfo coords"
  by (simp add: rotated_def)

lemma scaled_heap [simp]: "scaled (ed\<lparr>heap := h\<rparr>) objInfo coords = scaled ed objInfo coords"
  by (simp add: scaled_def Let_def)



lemma scale_objects_untouched:
  "(r, oid) \<notin> set (map (\<lambda>i. (si_layer i, si_id i)) infos) \<Longrightarrow>
   find (\<lambda>ob. obj_id ob = oid) (layer_objects (heap (scale_objects ed infos coords) r))
     = find (\<lambda>ob. obj_id ob = oid) (layer_objects (heap ed r))"
proof (induction infos arbitrary: ed)
  case Nil
  then show ?case by simp
next
  case (Cons j infos)
  then have ne: "(r, oid) \<noteq> (si_layer j, si_id j)"
    and rest: "(r, oid) \<notin> set (map (\<lambda>i. (si_layer i, si_id i)) infos)"
    by auto
  show ?case
    using Cons.IH [OF rest] find_by_id_update_object_other [OF ne]
    by (simp split: option.splits)
qed

lemma scale_objects_target:
  assumes "i \<in> set infos"
    and "distinct (map (\<lambda>i. (si_layer i, si_id i)) infos)"
    and "find (\<lambda>ob. obj_id ob = si_id i) (layer_objects (heap ed (si_layer i))) = Some obj"
  shows "find (\<lambda>ob. obj_id ob = si_id i) (layer_objects (heap (scale_objects ed infos coords) (si_layer i)))
           = Some (obj\<lparr>obj_width := fst (scaled ed i coords), obj_height := snd (scaled ed i coords)\<rparr>)"
  using assms
proof (induction infos arbitrary: ed obj)
  case Nil
  then show ?case by simp
next
  case (Cons j infos)
  show ?case
  proof (cases "(si_layer j, si_id j) = (si_layer i, si_id i)")
    case True
    with Cons.prems(2) have un: "(si_layer i, si_id i) \<notin> set (map (\<lambda>i. (si_layer i, si_id i)) infos)"
      by auto
    with Cons.prems(1) True have ij: "j = i" by force
    show ?thesis
      using Cons.prems(3) ij scale_objects_untouched [OF un]
      by (simp add: find_by_id_update_object_same del: layer_objects_update_object)
  next
    case False
    with Cons.prems have mem: "i \<in> set infos"
      and dist: "distinct (map (\<lambda>i. (si_layer i, si_id i)) infos)"
      by auto
    from False have ne: "(si_layer i, si_id i) \<noteq> (si_layer j, si_id j)" by auto
    show ?thesis
    proof (cases "find (\<lambda>ob. obj_id ob = si_id j) (layer_objects (heap ed (si_layer j)))")
      case None
      then show ?thesis using Cons.IH [OF mem dist Cons.prems(3)] by simp
    next
      case (Some a)
      let ?ed' = "ed\<lparr>heap := update_object (heap ed) (si_layer j) (\<lambda>ob. obj_id ob = si_id j)
                   (\<lambda>ob. ob\<lparr>obj_width := fst (scaled ed j coords),
                             obj_height := snd (scaled ed j coords)\<rparr>)\<rparr>"
      have "find (\<lambda>ob. obj_id ob = si_id i) (layer_objects (heap ?ed' (si_layer i))) = Some obj"
        using Cons.prems(3) find_by_id_update_object_other [OF ne] by simp
      from Cons.IH [OF mem dist this] Some show ?thesis
        by simp
    qed
  qed
qed


lemma map_filter_Cons:
  "List.map_filter f (x # xs) = (case f x of None \<Rightarrow> List.map_filter f xs | Some y \<Rightarrow> y # List.map_filter f xs)"
  by (simp add: List.map_filter_def split: option.splits)

lemma map_filter_Nil [simp]: "List.map_filter f [] = []"
  by (simp add: List.map_filter_def)


lemma scale_info_id: "scale_info h refs coords oid = Some i \<Longrightarrow> si_id i = oid"
  by (auto simp: scale_info_def split: option.splits)

lemma map_filter_ids:
  assumes "\<And>x y. f x = Some y \<Longrightarrow> g y = x"
  shows "map g (List.map_filter f xs) = filter (\<lambda>x. f x \<noteq> None) xs"
  using assms by (induction xs) (auto simp: map_filter_Cons split: option.splits)

lemma distinct_pairs_of_ids:
  "distinct (map g xs) \<Longrightarrow> distinct (map (\<lambda>i. (l i, g i)) xs)"
  by (induction xs) auto


lemma scale_infos_distinct:
  assumes "distinct selected"
  shows "distinct (map (\<lambda>i. (si_layer i, si_id i)) (List.map_filter (scale_info h refs coords) selected))"
proof -
  have "map si_id (List.map_filter (scale_info h refs coords) selected)
      = filter (\<lambda>x. scale_info h refs coords x \<noteq> None) selected"
    by (rule map_filter_ids) (rule scale_info_id)
  with assms have "distinct (map si_id (List.map_filter (scale_info h refs coords) selected))"
    by simp
  then show ?thesis by (rule distinct_pairs_of_ids)
qed


lemma angle_in_degrees:
  "jdiv (jmul (Math_atan2 (jsub (Fin py) (Fin cy)) (jsub (Fin px) (Fin cx))) (Fin 180)) Math_PI
     = Fin (angle_deg cx cy px py)"
  by (simp add: Math_PI_def angle_deg_def)





subsection \<open>A zero divisor in the scale tool\<close>

lemma max_10_at_zero_divisor:
  "Math_max (Fin 10) (jmul (Fin start) (jdiv (Fin d) (Fin 0))) = size_at_zero_divisor d start"
  by (cases d "0::real" rule: linorder_cases; cases start "0::real" rule: linorder_cases)
    (simp_all add: signed_inf_def size_at_zero_divisor_def zero_less_mult_iff)

lemma scale_factor_at_zero_divisor:
  "jdiv (jsub (Fin p) (Fin s)) (jsub (Fin s) (Fin s)) = signed_inf (p - s)"
  "\<not> isFinite (signed_inf d)"
  by (simp_all add: signed_inf_def)

lemma scaled_zero_divisor_x:
  assumes "si_startX i = Fin sx" and "si_startMouseX i = Fin sx" and "si_startWidth i = Fin w"
  shows "fst (scaled ed i (Fin px, cy)) =
           (if snapToGrid ed then snapToGridValue ed (size_at_zero_divisor (px - sx) w)
            else size_at_zero_divisor (px - sx) w)"
  using assms max_10_at_zero_divisor [of w "px - sx"] by (simp add: scaled_def Let_def)

lemma scaled_zero_divisor_y:
  assumes "si_startY i = Fin sy" and "si_startMouseY i = Fin sy" and "si_startHeight i = Fin h"
  shows "snd (scaled ed i (cx, Fin py)) =
           (if snapToGrid ed then snapToGridValue ed (size_at_zero_divisor (py - sy) h)
            else size_at_zero_divisor (py - sy) h)"
  using assms max_10_at_zero_divisor [of h "py - sy"] by (simp add: scaled_def Let_def)

lemma scale_down_on_edge:
  "handleScaleToolDown (Some (rect_object ''object_1'' 100 100 50 50)) scale_tool_editor (Fin mx, Fin my)
     = Inr (scale_tool_editor
         \<lparr>selectedObjects := [''object_1''],
          scaleInfo := Some [\<lparr>si_id = ''object_1'', si_layer = 0, si_startX = Fin 100,
            si_startY = Fin 100, si_startWidth = Fin 50, si_startHeight = Fin 50,
            si_startMouseX = Fin mx, si_startMouseY = Fin my\<rparr>]\<rparr>)"
  by (simp add: handleScaleToolDown_def scale_tool_editor_def one_layer_editor_def default_scene_def
      rect_object_def scale_info_def map_filter_Cons)

subsection \<open>Both paths of the tile tool\<close>

lemma find_layer_same_id:
  "layer_id l = layer_id (h r) \<Longrightarrow> find_layer (h(r := l)) refs lid = find_layer h refs lid"
proof -
  assume "layer_id l = layer_id (h r)"
  then have "(\<lambda>r'. layer_id ((h(r := l)) r') = lid) = (\<lambda>r'. layer_id (h r') = lid)"
    by (auto simp: fun_eq_iff)
  then show ?thesis by (simp add: find_layer_def)
qed

lemma new_tilemap_origin:
  "obj_x (new_tilemap now sc ts) = Fin 0" "obj_y (new_tilemap now sc ts) = Fin 0"
  "obj_tileSize (new_tilemap now sc ts) = Fin 32"
  by (simp_all add: new_tilemap_def Let_def)

text \<open>Both paths of the pointer-down handler, from the tilemap it resolves.\<close>

lemma tile_down_resolved:
  assumes "resolved_tilemap now ed = Some tm"
  shows "\<exists>sc r ed1. activeScene ed1 = Some sc \<and>
           find_layer (heap ed1) (scene_layers sc) (scene_activeLayer sc) = Some r \<and>
           find is_tilemap (layer_objects (heap ed1 r)) = Some tm \<and>
           selectedTile_or_1 ed1 = selectedTile_or_1 ed \<and>
           (all_tilemaps_consistent ed \<and> tilemap_consistent tm \<longrightarrow> all_tilemaps_consistent ed1) \<and>
           (\<forall>coords. handleTileToolDown now ed coords =
              (if outside_tilemap tm (tile_coord (fst coords) (obj_x tm) (obj_tileSize tm))
                    (tile_coord (snd coords) (obj_y tm) (obj_tileSize tm))
               then Inr ed1
               else Inr (place_tile ed1 r tm (tile_coord (fst coords) (obj_x tm) (obj_tileSize tm))
                           (tile_coord (snd coords) (obj_y tm) (obj_tileSize tm)))))"
proof -
  from assms obtain ts sc r where ts: "app_tileset ed = Some ts" and sc: "activeScene ed = Some sc"
    and r: "find_layer (heap ed) (scene_layers sc) (scene_activeLayer sc) = Some r"
    and tm: "tm = (case find is_tilemap (layer_objects (heap ed r)) of
                     Some t \<Rightarrow> t | None \<Rightarrow> new_tilemap now sc ts)"
    by (auto simp: resolved_tilemap_def split: option.splits)
  show ?thesis
  proof (cases "find is_tilemap (layer_objects (heap ed r))")
    case (Some t)
    with tm have t: "find is_tilemap (layer_objects (heap ed r)) = Some tm" by simp
    show ?thesis
      using sc r t handleTileToolDown_existing [OF ts sc r t, of now]
      by (intro exI [of _ sc] exI [of _ r] exI [of _ ed]) simp
  next
    case None
    let ?ed1 = "ed\<lparr>heap := (heap ed)(r := (heap ed r)
                  \<lparr>layer_objects := layer_objects (heap ed r) @ [new_tilemap now sc ts]\<rparr>)\<rparr>"
    from None tm have eq: "tm = new_tilemap now sc ts" by simp
    have 1: "activeScene ?ed1 = Some sc" using sc by simp
    have 2: "find_layer (heap ?ed1) (scene_layers sc) (scene_activeLayer sc) = Some r"
      using r by (simp add: find_layer_same_id)
    have 3: "find is_tilemap (layer_objects (heap ?ed1 r)) = Some tm"
      using None eq by (simp add: find_append_new new_tilemap_fields)
    have 4: "selectedTile_or_1 ?ed1 = selectedTile_or_1 ed"
      by (simp add: selectedTile_or_1_def)
    have 5: "all_tilemaps_consistent ed \<and> tilemap_consistent tm \<longrightarrow> all_tilemaps_consistent ?ed1"
      unfolding eq using add_tilemap_consistent by blast
    have 6: "\<forall>coords. handleTileToolDown now ed coords =
           (if outside_tilemap tm (tile_coord (fst coords) (obj_x tm) (obj_tileSize tm))
                 (tile_coord (snd coords) (obj_y tm) (obj_tileSize tm))
            then Inr ?ed1
            else Inr (place_tile ?ed1 r tm (tile_coord (fst coords) (obj_x tm) (obj_tileSize tm))
                        (tile_coord (snd coords) (obj_y tm) (obj_tileSize tm))))"
      unfolding handleTileToolDown_created [OF ts sc r None] eq new_tilemap_origin by simp
    from 1 2 3 4 5 6 show ?thesis by blast
  qed
qed

lemma tile_down_write:
  assumes "resolved_tilemap now ed = Some tm"
    and "tile_coord (fst coords) (obj_x tm) (obj_tileSize tm) = Fin (of_int col)"
    and "tile_coord (snd coords) (obj_y tm) (obj_tileSize tm) = Fin (of_int row)"
    and "0 \<le> col" and "col < obj_columns tm" and "0 \<le> row" and "row < obj_rows tm"
  shows "\<exists>ed'. handleTileToolDown now ed coords = Inr ed' \<and>
           lastPlacedTile ed' = Some (Fin (of_int col), Fin (of_int row)) \<and>
           active_tilemap ed' =
             Some (tm\<lparr>obj_tileData := array_set (obj_tileData tm)
                     (Fin (of_int (row * obj_columns tm + col))) (selectedTile_or_1 ed)\<rparr>)"
proof -
  from tile_down_resolved [OF assms(1)] obtain sc r ed1 where sc: "activeScene ed1 = Some sc"
    and r: "find_layer (heap ed1) (scene_layers sc) (scene_activeLayer sc) = Some r"
    and tm: "find is_tilemap (layer_objects (heap ed1 r)) = Some tm"
    and v: "selectedTile_or_1 ed1 = selectedTile_or_1 ed"
    and down: "\<And>coords. handleTileToolDown now ed coords =
           (if outside_tilemap tm (tile_coord (fst coords) (obj_x tm) (obj_tileSize tm))
                 (tile_coord (snd coords) (obj_y tm) (obj_tileSize tm))
            then Inr ed1
            else Inr (place_tile ed1 r tm (tile_coord (fst coords) (obj_x tm) (obj_tileSize tm))
                        (tile_coord (snd coords) (obj_y tm) (obj_tileSize tm))))"
    by blast
  have inside: "\<not> outside_tilemap tm (Fin (of_int col)) (Fin (of_int row))"
    using assms(4-7) by (simp add: outside_tilemap_Fin)
  have res: "handleTileToolDown now ed coords =
      Inr (place_tile ed1 r tm (Fin (of_int col)) (Fin (of_int row)))"
    unfolding down [of coords] assms(2,3) using inside by simp
  have last: "lastPlacedTile (place_tile ed1 r tm (Fin (of_int col)) (Fin (of_int row)))
      = Some (Fin (of_int col), Fin (of_int row))"
    by (simp add: place_tile_def Let_def)
  have "active_tilemap (place_tile ed1 r tm (Fin (of_int col)) (Fin (of_int row))) =
      Some (tm\<lparr>obj_tileData := array_set (obj_tileData tm)
              (Fin (of_int (row * obj_columns tm + col))) (selectedTile_or_1 ed)\<rparr>)"
    unfolding active_tilemap_place_tile [OF sc r tm] tile_index_Fin v ..
  with res last show ?thesis by blast
qed

lemma jeq_Fin: "jeq a (Fin b) \<Longrightarrow> a = Fin b"
  by (cases a) simp_all

lemma tile_move_write:
  assumes "isDragging ed" and "active_tilemap ed = Some tm"
    and "tile_coord (fst coords) (obj_x tm) (obj_tileSize tm) = Fin (of_int col)"
    and "tile_coord (snd coords) (obj_y tm) (obj_tileSize tm) = Fin (of_int row)"
    and "0 \<le> col" and "col < obj_columns tm" and "0 \<le> row" and "row < obj_rows tm"
    and "lastPlacedTile ed \<noteq> Some (Fin (of_int col), Fin (of_int row))"
  shows "\<exists>ed'. handleTileToolMove ed coords = Inr ed' \<and>
           lastPlacedTile ed' = Some (Fin (of_int col), Fin (of_int row)) \<and>
           active_tilemap ed' =
             Some (tm\<lparr>obj_tileData := array_set (obj_tileData tm)
                     (Fin (of_int (row * obj_columns tm + col))) (selectedTile_or_1 ed)\<rparr>)"
proof -
  from assms(2) obtain sc r where sc: "activeScene ed = Some sc"
    and r: "find_layer (heap ed) (scene_layers sc) (scene_activeLayer sc) = Some r"
    and tm: "find is_tilemap (layer_objects (heap ed r)) = Some tm"
    by (rule active_tilemap_SomeD)
  have inside: "\<not> outside_tilemap tm (Fin (of_int col)) (Fin (of_int row))"
    using assms(5-8) by (simp add: outside_tilemap_Fin)
  have other: "\<not> (case lastPlacedTile ed of None \<Rightarrow> False
      | Some (lastX, lastY) \<Rightarrow> jeq lastX (Fin (of_int col)) \<and> jeq lastY (Fin (of_int row)))"
    using assms(9) by (auto split: option.splits dest: jeq_Fin)
  have res: "handleTileToolMove ed coords =
      Inr (place_tile ed r tm (Fin (of_int col)) (Fin (of_int row)))"
    unfolding handleTileToolMove_existing [OF assms(1) sc r tm] assms(3,4)
    using inside other by simp
  have last: "lastPlacedTile (place_tile ed r tm (Fin (of_int col)) (Fin (of_int row)))
      = Some (Fin (of_int col), Fin (of_int row))"
    by (simp add: place_tile_def Let_def)
  have "active_tilemap (place_tile ed r tm (Fin (of_int col)) (Fin (of_int row))) =
      Some (tm\<lparr>obj_tileData := array_set (obj_tileData tm)
              (Fin (of_int (row * obj_columns tm + col))) (selectedTile_or_1 ed)\<rparr>)"
    unfolding active_tilemap_place_tile [OF sc r tm] tile_index_Fin ..
  with res last show ?thesis by blast
qed

lemma new_tilemap_consistent_iff:
  "tilemap_consistent (new_tilemap now sc ts)
     \<longleftrightarrow> 0 \<le> \<lceil>scene_width sc / 32\<rceil> * \<lceil>scene_height sc / 32\<rceil>"
  by (auto simp: tilemap_consistent_def new_tilemap_fields mult.commute)

lemma nonneg_size_nonneg_cells:
  assumes "0 \<le> (w::real)" and "0 \<le> (h::real)"
  shows "0 \<le> \<lceil>w / 32\<rceil> * \<lceil>h / 32\<rceil>"
proof -
  have "0 \<le> \<lceil>w / 32\<rceil>" and "0 \<le> \<lceil>h / 32\<rceil>"
    using assms by (simp_all add: le_ceiling_iff)
  then show ?thesis by simp
qed

lemma active_tilemap_consistent:
  assumes "all_tilemaps_consistent ed" and "active_tilemap ed = Some tm"
  shows "tilemap_consistent tm"
proof -
  from assms(2) obtain sc r where "find is_tilemap (layer_objects (heap ed r)) = Some tm"
    by (rule active_tilemap_SomeD)
  then have "tm \<in> set (layer_objects (heap ed r))" and "is_tilemap tm"
    by (simp_all add: find_Some_mem)
  with assms(1) show ?thesis
    by (auto simp: all_tilemaps_consistent_def)
qed

lemma active_tilemapI:
  "activeScene ed = Some sc \<Longrightarrow>
   find_layer (heap ed) (scene_layers sc) (scene_activeLayer sc) = Some r \<Longrightarrow>
   find is_tilemap (layer_objects (heap ed r)) = Some tm \<Longrightarrow> active_tilemap ed = Some tm"
  by (simp add: active_tilemap_def)

lemma resolved_tilemap_consistent:
  assumes "activeScene ed = Some sc" and "all_tilemaps_consistent ed"
    and "0 \<le> \<lceil>scene_width sc / 32\<rceil> * \<lceil>scene_height sc / 32\<rceil>"
    and "resolved_tilemap now ed = Some tm"
  shows "tilemap_consistent tm"
proof -
  from assms(1,4) obtain ts r where r: "find_layer (heap ed) (scene_layers sc) (scene_activeLayer sc) = Some r"
    and tm: "tm = (case find is_tilemap (layer_objects (heap ed r)) of
                     Some t \<Rightarrow> t | None \<Rightarrow> new_tilemap now sc ts)"
    by (auto simp: resolved_tilemap_def split: option.splits)
  show ?thesis
  proof (cases "find is_tilemap (layer_objects (heap ed r))")
    case None
    with tm assms(3) show ?thesis by (simp add: new_tilemap_consistent_iff)
  next
    case (Some t)
    with tm have "active_tilemap ed = Some tm"
      using assms(1) r by (simp add: active_tilemapI)
    with assms(2) show ?thesis by (rule active_tilemap_consistent)
  qed
qed

text \<open>What a pointer-down leaves of the tilemap it resolved.\<close>

lemma tile_down_result:
  assumes "resolved_tilemap now ed = Some tm" and "handleTileToolDown now ed coords = Inr ed'"
  shows "active_tilemap ed' = Some tm \<or>
         (\<exists>k. active_tilemap ed' =
                 Some (tm\<lparr>obj_tileData := array_set (obj_tileData tm) k (selectedTile_or_1 ed)\<rparr>))"
proof -
  from tile_down_resolved [OF assms(1)] obtain sc r ed1 where sc: "activeScene ed1 = Some sc"
    and r: "find_layer (heap ed1) (scene_layers sc) (scene_activeLayer sc) = Some r"
    and tm: "find is_tilemap (layer_objects (heap ed1 r)) = Some tm"
    and v: "selectedTile_or_1 ed1 = selectedTile_or_1 ed"
    and down: "\<And>coords. handleTileToolDown now ed coords =
           (if outside_tilemap tm (tile_coord (fst coords) (obj_x tm) (obj_tileSize tm))
                 (tile_coord (snd coords) (obj_y tm) (obj_tileSize tm))
            then Inr ed1
            else Inr (place_tile ed1 r tm (tile_coord (fst coords) (obj_x tm) (obj_tileSize tm))
                        (tile_coord (snd coords) (obj_y tm) (obj_tileSize tm))))"
    by blast
  let ?X = "tile_coord (fst coords) (obj_x tm) (obj_tileSize tm)"
  let ?Y = "tile_coord (snd coords) (obj_y tm) (obj_tileSize tm)"
  from assms(2) down [of coords] have "ed' = ed1 \<or> ed' = place_tile ed1 r tm ?X ?Y"
    by (auto split: if_splits)
  then show ?thesis
    using active_tilemapI [OF sc r tm] active_tilemap_place_tile [OF sc r tm, of tm ?X ?Y] v
    by auto
qed

lemma tile_down_consistent:
  assumes "activeScene ed = Some sc" and "all_tilemaps_consistent ed"
    and "0 \<le> \<lceil>scene_width sc / 32\<rceil> * \<lceil>scene_height sc / 32\<rceil>"
  shows "\<exists>ed'. handleTileToolDown now ed coords = Inr ed' \<and> all_tilemaps_consistent ed'"
proof (cases "resolved_tilemap now ed")
  case None
  then have "handleTileToolDown now ed coords = Inr ed"
    using assms(1) by (auto simp: resolved_tilemap_def handleTileToolDown_def split: option.splits)
  with assms(2) show ?thesis by simp
next
  case (Some tm)
  from resolved_tilemap_consistent [OF assms Some] have c: "tilemap_consistent tm" .
  from tile_down_resolved [OF Some] obtain sc' r ed1
    where tm: "find is_tilemap (layer_objects (heap ed1 r)) = Some tm"
    and c1: "all_tilemaps_consistent ed \<and> tilemap_consistent tm \<longrightarrow> all_tilemaps_consistent ed1"
    and down: "\<And>coords. handleTileToolDown now ed coords =
           (if outside_tilemap tm (tile_coord (fst coords) (obj_x tm) (obj_tileSize tm))
                 (tile_coord (snd coords) (obj_y tm) (obj_tileSize tm))
            then Inr ed1
            else Inr (place_tile ed1 r tm (tile_coord (fst coords) (obj_x tm) (obj_tileSize tm))
                        (tile_coord (snd coords) (obj_y tm) (obj_tileSize tm))))"
    by blast
  from c1 assms(2) c have c1: "all_tilemaps_consistent ed1" by simp
  let ?X = "tile_coord (fst coords) (obj_x tm) (obj_tileSize tm)"
  let ?Y = "tile_coord (snd coords) (obj_y tm) (obj_tileSize tm)"
  have "handleTileToolDown now ed coords = Inr ed1 \<or>
      (\<not> outside_tilemap tm ?X ?Y \<and> handleTileToolDown now ed coords = Inr (place_tile ed1 r tm ?X ?Y))"
    unfolding down [of coords] by simp
  then show ?thesis
    using c1 place_tile_consistent [OF c1 tm] by blast
qed

lemma tile_handlers_keep_shape:
  assumes "active_tilemap ed' = Some tm \<or>
         (\<exists>k. active_tilemap ed' = Some (tm\<lparr>obj_tileData := array_set (obj_tileData tm) k v\<rparr>))"
    and "all_tilemaps_consistent ed'"
  shows "\<exists>tm'. active_tilemap ed' = Some tm' \<and> obj_columns tm' = obj_columns tm \<and>
           obj_rows tm' = obj_rows tm \<and>
           int (length (obj_tileData tm')) = obj_columns tm * obj_rows tm"
proof -
  from assms(1) obtain tm' where a: "active_tilemap ed' = Some tm'"
    and s: "obj_columns tm' = obj_columns tm" "obj_rows tm' = obj_rows tm"
    by auto
  from active_tilemap_consistent [OF assms(2) a] s a show ?thesis
    by (simp add: tilemap_consistent_def)
qed

subsection \<open>The example states\<close>

lemma active_tilemap_scenario_D: "active_tilemap scenario_D = Some tilemap_10x10"
  by (simp add: active_tilemap_def scenario_D_def tile_tool_editor_def one_layer_editor_def
      default_scene_def find_layer_def tilemap_10x10_def is_tilemap_def)

lemma tilemap_10x10_fields:
  "obj_x tilemap_10x10 = Fin 0" "obj_y tilemap_10x10 = Fin 0" "obj_tileSize tilemap_10x10 = Fin 32"
  "obj_columns tilemap_10x10 = 10" "obj_rows tilemap_10x10 = 10"
  "obj_tileData tilemap_10x10 = replicate 100 (Some 0)"
  by (simp_all add: tilemap_10x10_def)

lemma scenario_D_fields:
  "app_tileset scenario_D = Some ''tileset_1''" "selectedTile_or_1 scenario_D = 1"
  "isDragging scenario_D" "activeScene scenario_D = Some default_scene"
  "lastPlacedTile scenario_D = None"
  by (simp_all add: scenario_D_def tile_tool_editor_def one_layer_editor_def selectedTile_or_1_def)

lemma scenario_D_floors: "1 = \<lfloor>(35 - 0) / 32::real\<rfloor>" "2 = \<lfloor>(67 - 0) / 32::real\<rfloor>"
  by simp_all

lemma array_set_21:
  "array_set (replicate 100 (Some 0)) (Fin 21) (1::int) = (replicate 100 (Some 0))[21 := Some 1]"
proof -
  have "array_set (replicate 100 (Some 0)) (Fin (real_of_int 21)) (1::int)
      = (replicate 100 (Some 0))[nat 21 := Some 1]"
    by (rule array_set_index) simp_all
  then show ?thesis by simp
qed

lemma resolved_tilemap_examples:
  "resolved_tilemap now scenario_D = Some tilemap_10x10"
  "resolved_tilemap now scenario_D_tile_7 = Some tilemap_10x10"
  "resolved_tilemap now (tile_tool_editor []) = Some (new_tilemap now default_scene ''tileset_1'')"
  by (simp_all add: resolved_tilemap_def scenario_D_tile_7_def scenario_D_def tile_tool_editor_def
      one_layer_editor_def default_scene_def find_layer_def tilemap_10x10_def is_tilemap_def)

lemma first_tilemap_fields:
  "obj_columns (new_tilemap now default_scene ts) = 25"
  "obj_rows (new_tilemap now default_scene ts) = 19"
  "obj_tileData (new_tilemap now default_scene ts) = replicate 475 (Some 0)"
  by (simp_all add: new_tilemap_fields default_scene_def ceiling_eq_iff)

lemma tile_tool_editor_fields:
  "app_tileset (tile_tool_editor objects) = Some ''tileset_1''"
  "selectedTile_or_1 (tile_tool_editor objects) = 1"
  "isDragging (tile_tool_editor objects)"
  "activeScene (tile_tool_editor objects) = Some default_scene"
  "lastPlacedTile (tile_tool_editor objects) = None"
  by (simp_all add: tile_tool_editor_def one_layer_editor_def selectedTile_or_1_def)

lemma array_set_51:
  "array_set (replicate 475 (Some 0)) (Fin 51) (1::int) = (replicate 475 (Some 0))[51 := Some 1]"
proof -
  have "array_set (replicate 475 (Some 0)) (Fin (real_of_int 51)) (1::int)
      = (replicate 475 (Some 0))[nat 51 := Some 1]"
    by (rule array_set_index) simp_all
  then show ?thesis by simp
qed

lemma example_editors_consistent:
  "all_tilemaps_consistent (tile_tool_editor [])"
  "all_tilemaps_consistent scenario_D"
  "tilemap_consistent tilemap_10x10"
  by (simp_all add: all_tilemaps_consistent_def tilemap_consistent_def scenario_D_def
      tile_tool_editor_def one_layer_editor_def tilemap_10x10_fields)

lemma scenario_D_cells:
  "tile_coord (Fin 35) (Fin 0) (Fin 32) = Fin (of_int 1)"
  "tile_coord (Fin 67) (Fin 0) (Fin 32) = Fin (of_int 2)"
  "tile_coord (Fin 100) (Fin 0) (Fin 32) = Fin (of_int 3)"
  by (simp_all add: tile_coord_def)

lemma scenario_D_tile_7_fields:
  "app_selectedTile scenario_D_tile_7 = Some 7" "selectedTile_or_1 scenario_D_tile_7 = 7"
  "isDragging scenario_D_tile_7" "active_tilemap scenario_D_tile_7 = Some tilemap_10x10"
  "lastPlacedTile scenario_D_tile_7 = None"
  by (simp_all add: scenario_D_tile_7_def scenario_D_def tile_tool_editor_def one_layer_editor_def
      default_scene_def selectedTile_or_1_def active_tilemap_def find_layer_def tilemap_10x10_def
      is_tilemap_def)

section \<open>The scene rectangle (C8)\<close>

text \<open>
  C8. For every finite zoom \<open>z\<close>, pan offset \<open>(px, py)\<close> and canvas size
  \<open>(cw, ch)\<close>, \<open>render\<close> places the top-left corner of the scene at
  \<open>sceneX = (cw - sceneWidth * z) / 2 + px\<close>, \<open>sceneY = (ch - sceneHeight * z) / 2 + py\<close>
  in screen space, and fills a rectangle of the scene's size times \<open>z\<close> from there. The
  witness is scenario A: an 800 by 600 scene at zoom 1 (set through \<open>setZoom\<close>), no
  pan, on an 800 by 600 canvas has its origin at screen (0, 0).
\<close>

theorem render_scene_origin:
  assumes "ctx ed" and "canvas ed = Some (Fin cw, Fin ch)" and "activeScene ed = Some sc"
    and "zoom ed = Fin z" and "panOffset ed = (Fin px, Fin py)"
  shows "render ed =
           Some (Fin ((cw - scene_width sc * z) / 2 + px),
                 Fin ((ch - scene_height sc * z) / 2 + py),
                 Fin (scene_width sc * z), Fin (scene_height sc * z))"
  using assms by (simp add: render_def)

theorem render_scene_origin_witness:
  "render (setZoom (one_layer_editor []) (Fin 1)) = Some (Fin 0, Fin 0, Fin 800, Fin 600)"
  using render_scene_origin [of "setZoom (one_layer_editor []) (Fin 1)" 800 600
      default_scene 1 0 0]
  by (simp add: one_layer_editor_def default_scene_def setZoom_def)

section \<open>Drag state across tool and scene changes (C1)\<close>

text \<open>
  C1, as the claim has it, fails: \<open>setActiveTool\<close> and \<open>onLoadScene\<close> do not touch
  the drag state. In scenario C, with the move tool in the middle of a drag, the rotate
  tool is activated, or another scene is loaded, and \<open>dragInfo\<close> is still there.
\<close>

theorem tool_switch_keeps_drag_state_counterexample:
  "dragInfo scenario_C \<noteq> None \<and>
   activeTool (setActiveTool scenario_C ''rotate'') = ''rotate'' \<and>
   dragInfo (setActiveTool scenario_C ''rotate'') = dragInfo scenario_C \<and>
   dragInfo (onLoadScene scenario_C (activeScene (one_layer_editor []))) = dragInfo scenario_C"
  by (simp add: scenario_C_def one_layer_editor_def setActiveTool_def onLoadScene_def tools_def)

text \<open>
  C1, amended. Switching the active tool with \<open>setActiveTool\<close>, loading a scene
  with \<open>onLoadScene\<close> and creating one with \<open>onNewScene\<close> leave \<open>dragInfo\<close>,
  \<open>rotateInfo\<close>, \<open>scaleInfo\<close> and \<open>lastPlacedTile\<close> as they were, so a tool
  activated in the middle of a drag finds the previous tool's drag state still set.
  The pointer-up handler of a tool discards the drag state of that tool and leaves the
  drag state of the other tools as it was.
\<close>

theorem drag_state_kept_by_tool_and_scene_change:
  "dragInfo (setActiveTool ed toolId) = dragInfo ed \<and>
   rotateInfo (setActiveTool ed toolId) = rotateInfo ed \<and>
   scaleInfo (setActiveTool ed toolId) = scaleInfo ed \<and>
   lastPlacedTile (setActiveTool ed toolId) = lastPlacedTile ed \<and>
   dragInfo (onLoadScene ed sc) = dragInfo ed \<and>
   rotateInfo (onLoadScene ed sc) = rotateInfo ed \<and>
   scaleInfo (onLoadScene ed sc) = scaleInfo ed \<and>
   lastPlacedTile (onLoadScene ed sc) = lastPlacedTile ed \<and>
   dragInfo (onNewScene now ed cfg) = dragInfo ed \<and>
   rotateInfo (onNewScene now ed cfg) = rotateInfo ed \<and>
   scaleInfo (onNewScene now ed cfg) = scaleInfo ed \<and>
   lastPlacedTile (onNewScene now ed cfg) = lastPlacedTile ed \<and>
   dragInfo (handleMoveToolUp ed) = None \<and>
   rotateInfo (handleMoveToolUp ed) = rotateInfo ed \<and>
   scaleInfo (handleMoveToolUp ed) = scaleInfo ed \<and>
   lastPlacedTile (handleMoveToolUp ed) = lastPlacedTile ed \<and>
   rotateInfo (handleRotateToolUp ed) = None \<and>
   dragInfo (handleRotateToolUp ed) = dragInfo ed \<and>
   scaleInfo (handleRotateToolUp ed) = scaleInfo ed \<and>
   lastPlacedTile (handleRotateToolUp ed) = lastPlacedTile ed \<and>
   scaleInfo (handleScaleToolUp ed) = None \<and>
   dragInfo (handleScaleToolUp ed) = dragInfo ed \<and>
   rotateInfo (handleScaleToolUp ed) = rotateInfo ed \<and>
   lastPlacedTile (handleScaleToolUp ed) = lastPlacedTile ed \<and>
   lastPlacedTile (handleTileToolUp ed) = None \<and>
   dragInfo (handleTileToolUp ed) = dragInfo ed \<and>
   rotateInfo (handleTileToolUp ed) = rotateInfo ed \<and>
   scaleInfo (handleTileToolUp ed) = scaleInfo ed"
  by (simp add: setActiveTool_def onLoadScene_def onNewScene_def Let_def handleMoveToolUp_def
      handleRotateToolUp_def handleScaleToolUp_def handleTileToolUp_def)

section \<open>The move tool (C3)\<close>

text \<open>
  C3. While the move tool drags, each dragged object is placed at its start position
  plus the screen delta divided by the zoom, rounded to the nearest multiple of the grid
  size when snapping is on. The witness is scenario C: at zoom 2 and grid size 32 an
  object that started at (0, 0) and is dragged by the screen delta (32, 32) has
  \<open>snap(0 + 32 / 2) = snap(16) = 32\<close> on each axis, and lands at (32, 32).
\<close>

theorem move_tool_snapped_position:
  assumes "dragInfo ed = Some infos" and "i \<in> set infos"
    and "distinct (map (\<lambda>i. (di_layer i, di_id i)) infos)"
    and "find (\<lambda>ob. obj_id ob = di_id i) (layer_objects (heap ed (di_layer i))) = Some obj"
    and "di_startX i = Fin sx" and "di_startY i = Fin sy"
    and "zoom ed = Fin z" and "z \<noteq> 0" and "gridSize ed = Fin g" and "g \<noteq> 0" and "snapToGrid ed"
  shows "find (\<lambda>ob. obj_id ob = di_id i)
           (layer_objects (heap (handleMoveToolMove ed (Fin dx) (Fin dy)) (di_layer i)))
         = Some (obj\<lparr>obj_x := Fin (of_int \<lfloor>(sx + dx / z) / g + 1 / 2\<rfloor> * g),
                     obj_y := Fin (of_int \<lfloor>(sy + dy / z) / g + 1 / 2\<rfloor> * g)\<rparr>)"
proof -
  have "handleMoveToolMove ed (Fin dx) (Fin dy) = move_objects ed infos (Fin dx) (Fin dy)"
    using assms(1) by (simp add: handleMoveToolMove_def)
  moreover have "snapToGridValue ed (jadd (di_startX i) (jdiv (Fin dx) (zoom ed)))
      = Fin (of_int \<lfloor>(sx + dx / z) / g + 1 / 2\<rfloor> * g)"
    using assms(5,7-11) by (simp add: snapToGridValue_def)
  moreover have "snapToGridValue ed (jadd (di_startY i) (jdiv (Fin dy) (zoom ed)))
      = Fin (of_int \<lfloor>(sy + dy / z) / g + 1 / 2\<rfloor> * g)"
    using assms(6-11) by (simp add: snapToGridValue_def)
  ultimately show ?thesis
    using move_objects_target [OF assms(2,3,4), of "Fin dx" "Fin dy"] by simp
qed

theorem move_tool_snapped_position_witness:
  "map (\<lambda>ob. (obj_x ob, obj_y ob)) (layer_objects (heap scenario_C 0)) = [(Fin 0, Fin 0)] \<and>
   find (\<lambda>ob. obj_id ob = ''object_1'')
     (layer_objects (heap (handleMoveToolMove scenario_C (Fin 32) (Fin 32)) 0))
   = Some (rect_object ''object_1'' 32 32 50 50)"
  using move_tool_snapped_position [of scenario_C
      "[\<lparr>di_id = ''object_1'', di_layer = 0, di_startX = Fin 0, di_startY = Fin 0\<rparr>]"
      "\<lparr>di_id = ''object_1'', di_layer = 0, di_startX = Fin 0, di_startY = Fin 0\<rparr>"
      "rect_object ''object_1'' 0 0 50 50" 0 0 2 32 32 32]
  by (simp add: scenario_C_def one_layer_editor_def default_scene_def rect_object_def)

section \<open>The cell and the index of a painted tile (C4)\<close>

text \<open>
  C4. A pointer-down of the tile tool at the scene point \<open>(px, py)\<close> targets the cell
  \<open>col = floor((px - tilemap.x) / tileSize)\<close>, \<open>row = floor((py - tilemap.y) / tileSize)\<close>
  of the tilemap it resolves, the active layer's own or the one it has just created,
  and, when the cell is inside the tilemap, writes the selected tile at the flat index
  \<open>row * columns + col\<close> of \<open>tileData\<close> and notes the cell as the last one placed.
  Where \<open>tileData\<close> has \<open>columns * rows\<close> entries the write is the update of that
  one entry. The witness is scenario D, where painting at (35, 67) on a 10 by 10 tilemap
  of 32 by 32 tiles at the origin hits column 1 of row 2 and writes index 21, and the
  first paint at (35, 67) on a layer with no tilemap in the 800 by 600 scene, which
  creates 25 columns and writes index 51.
\<close>

theorem tile_paint_cell_and_index:
  assumes "resolved_tilemap now ed = Some tm"
    and "obj_x tm = Fin tx" and "obj_y tm = Fin ty" and "obj_tileSize tm = Fin s" and "s \<noteq> 0"
    and "col = \<lfloor>(px - tx) / s\<rfloor>" and "row = \<lfloor>(py - ty) / s\<rfloor>"
    and "0 \<le> col" and "col < obj_columns tm" and "0 \<le> row" and "row < obj_rows tm"
  shows "\<exists>ed'. handleTileToolDown now ed (Fin px, Fin py) = Inr ed' \<and>
           lastPlacedTile ed' = Some (Fin (of_int col), Fin (of_int row)) \<and>
           active_tilemap ed' =
             Some (tm\<lparr>obj_tileData := array_set (obj_tileData tm)
                     (Fin (of_int (row * obj_columns tm + col))) (selectedTile_or_1 ed)\<rparr>) \<and>
           (int (length (obj_tileData tm)) = obj_columns tm * obj_rows tm \<longrightarrow>
              array_set (obj_tileData tm) (Fin (of_int (row * obj_columns tm + col))) (selectedTile_or_1 ed)
                = (obj_tileData tm)[nat (row * obj_columns tm + col) := Some (selectedTile_or_1 ed)])"
proof -
  have "tile_coord (fst (Fin px, Fin py)) (obj_x tm) (obj_tileSize tm) = Fin (of_int col)"
    and "tile_coord (snd (Fin px, Fin py)) (obj_y tm) (obj_tileSize tm) = Fin (of_int row)"
    using assms(2-7) by (simp_all add: tile_coord_Fin)
  from tile_down_write [OF assms(1) this assms(8-11)]
  obtain ed' where "handleTileToolDown now ed (Fin px, Fin py) = Inr ed'"
    and "lastPlacedTile ed' = Some (Fin (of_int col), Fin (of_int row))"
    and "active_tilemap ed' =
           Some (tm\<lparr>obj_tileData := array_set (obj_tileData tm)
                   (Fin (of_int (row * obj_columns tm + col))) (selectedTile_or_1 ed)\<rparr>)"
    by blast
  moreover have "int (length (obj_tileData tm)) = obj_columns tm * obj_rows tm \<longrightarrow>
      array_set (obj_tileData tm) (Fin (of_int (row * obj_columns tm + col))) (selectedTile_or_1 ed)
        = (obj_tileData tm)[nat (row * obj_columns tm + col) := Some (selectedTile_or_1 ed)]"
    using array_set_consistent(2) [OF _ assms(8-11)] by (simp add: tilemap_consistent_def)
  ultimately show ?thesis by blast
qed

theorem tile_paint_cell_and_index_witness:
  "(\<exists>ed'. handleTileToolDown ''0'' scenario_D (Fin 35, Fin 67) = Inr ed' \<and>
      lastPlacedTile ed' = Some (Fin 1, Fin 2) \<and>
      active_tilemap ed' =
        Some (tilemap_10x10\<lparr>obj_tileData := (replicate 100 (Some 0))[21 := Some 1]\<rparr>)) \<and>
   (\<exists>ed'. handleTileToolDown ''0'' (tile_tool_editor []) (Fin 35, Fin 67) = Inr ed' \<and>
      lastPlacedTile ed' = Some (Fin 1, Fin 2) \<and>
      active_tilemap ed' =
        Some ((new_tilemap ''0'' default_scene ''tileset_1'')
                \<lparr>obj_tileData := (replicate 475 (Some 0))[51 := Some 1]\<rparr>))"
proof
  have "\<exists>ed'. handleTileToolDown ''0'' scenario_D (Fin 35, Fin 67) = Inr ed' \<and>
     lastPlacedTile ed' = Some (Fin 1, Fin 2) \<and>
     active_tilemap ed' =
       Some (tilemap_10x10\<lparr>obj_tileData := array_set (replicate 100 (Some 0)) (Fin 21) 1\<rparr>)"
    using tile_paint_cell_and_index [OF resolved_tilemap_examples(1)
      tilemap_10x10_fields(1,2,3) _ scenario_D_floors,
      unfolded tilemap_10x10_fields scenario_D_fields]
    apply simp
    apply blast
    done
  then show "\<exists>ed'. handleTileToolDown ''0'' scenario_D (Fin 35, Fin 67) = Inr ed' \<and>
      lastPlacedTile ed' = Some (Fin 1, Fin 2) \<and>
      active_tilemap ed' =
        Some (tilemap_10x10\<lparr>obj_tileData := (replicate 100 (Some 0))[21 := Some 1]\<rparr>)"
    unfolding array_set_21 .
next
  have "\<exists>ed'. handleTileToolDown ''0'' (tile_tool_editor []) (Fin 35, Fin 67) = Inr ed' \<and>
     lastPlacedTile ed' = Some (Fin 1, Fin 2) \<and>
     active_tilemap ed' =
       Some ((new_tilemap ''0'' default_scene ''tileset_1'')
               \<lparr>obj_tileData := array_set (replicate 475 (Some 0)) (Fin 51) 1\<rparr>)"
    using tile_paint_cell_and_index [OF resolved_tilemap_examples(3)
      new_tilemap_origin _ scenario_D_floors,
      unfolded first_tilemap_fields tile_tool_editor_fields]
    apply simp
    apply blast
    done
  then show "\<exists>ed'. handleTileToolDown ''0'' (tile_tool_editor []) (Fin 35, Fin 67) = Inr ed' \<and>
      lastPlacedTile ed' = Some (Fin 1, Fin 2) \<and>
      active_tilemap ed' =
        Some ((new_tilemap ''0'' default_scene ''tileset_1'')
                \<lparr>obj_tileData := (replicate 475 (Some 0))[51 := Some 1]\<rparr>)"
    unfolding array_set_51 .
qed

section \<open>Tile events outside the tilemap or without an active layer (C5)\<close>

text \<open>
  C5, as the claim has it, fails for the pointer-down handler: it creates the missing
  tilemap before it looks at the cell. On an active layer with no tilemap, a
  pointer-down at (-5, -5), outside the scene, leaves a new tilemap in the layer.
\<close>

theorem tile_down_outside_creates_tilemap_counterexample:
  "layer_objects (heap (tile_tool_editor []) 0) = [] \<and>
   outside_tilemap (new_tilemap ''0'' default_scene ''tileset_1'')
     (tile_coord (Fin (- 5)) (Fin 0) (Fin 32)) (tile_coord (Fin (- 5)) (Fin 0) (Fin 32)) \<and>
   (\<exists>ed'. handleTileToolDown ''0'' (tile_tool_editor []) (Fin (- 5), Fin (- 5)) = Inr ed' \<and>
      layer_objects (heap ed' 0) = [new_tilemap ''0'' default_scene ''tileset_1''])"
proof -
  have "app_tileset (tile_tool_editor []) = Some ''tileset_1''"
    and "activeScene (tile_tool_editor []) = Some default_scene"
    and "find_layer (heap (tile_tool_editor [])) (scene_layers default_scene)
           (scene_activeLayer default_scene) = Some 0"
    and "find is_tilemap (layer_objects (heap (tile_tool_editor []) 0)) = None"
    by (simp_all add: tile_tool_editor_def one_layer_editor_def default_scene_def find_layer_def)
  note down = handleTileToolDown_created [OF this, of "''0''" "(Fin (- 5), Fin (- 5))"]
  have out: "outside_tilemap (new_tilemap ''0'' default_scene ''tileset_1'')
     (tile_coord (Fin (- 5)) (Fin 0) (Fin 32)) (tile_coord (Fin (- 5)) (Fin 0) (Fin 32))"
    by (simp add: outside_tilemap_def tile_coord_def)
  have "layer_objects (heap (tile_tool_editor []) 0) = []"
    by (simp add: tile_tool_editor_def one_layer_editor_def)
  with down out show ?thesis by simp
qed

text \<open>
  C5, amended. With an active scene, a tile event is a no-op, and raises nothing, when
  no layer has the id \<open>activeScene.activeLayer\<close>, and when the active layer has a
  tilemap and the cell of the pointer is outside it: the handler returns the editor as
  it was. On an active layer without a tilemap, a pointer-down with a tileset selected
  and a cell outside the scene adds the new, empty tilemap to the layer and changes
  nothing else; a pointer-move there is a no-op.
\<close>

theorem tile_paint_ignored:
  assumes "activeScene ed = Some sc"
  shows "(find_layer (heap ed) (scene_layers sc) (scene_activeLayer sc) = None \<longrightarrow>
            handleTileToolDown now ed coords = Inr ed \<and> handleTileToolMove ed coords = Inr ed) \<and>
         (\<forall>tm. active_tilemap ed = Some tm \<and>
               outside_tilemap tm (tile_coord (fst coords) (obj_x tm) (obj_tileSize tm))
                 (tile_coord (snd coords) (obj_y tm) (obj_tileSize tm)) \<longrightarrow>
            handleTileToolDown now ed coords = Inr ed \<and> handleTileToolMove ed coords = Inr ed) \<and>
         (\<forall>r ts. find_layer (heap ed) (scene_layers sc) (scene_activeLayer sc) = Some r \<and>
               find is_tilemap (layer_objects (heap ed r)) = None \<and> app_tileset ed = Some ts \<and>
               outside_tilemap (new_tilemap now sc ts) (tile_coord (fst coords) (Fin 0) (Fin 32))
                 (tile_coord (snd coords) (Fin 0) (Fin 32)) \<longrightarrow>
            handleTileToolDown now ed coords =
              Inr (ed\<lparr>heap := (heap ed)(r := (heap ed r)
                      \<lparr>layer_objects := layer_objects (heap ed r) @ [new_tilemap now sc ts]\<rparr>)\<rparr>) \<and>
            handleTileToolMove ed coords = Inr ed)"
proof (intro conjI allI impI)
  assume "find_layer (heap ed) (scene_layers sc) (scene_activeLayer sc) = None"
  then show "handleTileToolDown now ed coords = Inr ed" "handleTileToolMove ed coords = Inr ed"
    using assms by (simp_all add: handleTileToolDown_no_layer handleTileToolMove_no_layer)
next
  fix tm
  assume a: "active_tilemap ed = Some tm \<and>
     outside_tilemap tm (tile_coord (fst coords) (obj_x tm) (obj_tileSize tm))
       (tile_coord (snd coords) (obj_y tm) (obj_tileSize tm))"
  then obtain r where r: "find_layer (heap ed) (scene_layers sc) (scene_activeLayer sc) = Some r"
    and tm: "find is_tilemap (layer_objects (heap ed r)) = Some tm"
    using assms by (auto elim: active_tilemap_SomeD)
  show "handleTileToolDown now ed coords = Inr ed"
  proof (cases "app_tileset ed")
    case None
    then show ?thesis by (simp add: handleTileToolDown_def)
  next
    case (Some ts)
    from handleTileToolDown_existing [OF Some assms r tm] a show ?thesis by simp
  qed
  show "handleTileToolMove ed coords = Inr ed"
  proof (cases "isDragging ed")
    case True
    from handleTileToolMove_existing [OF True assms r tm] a show ?thesis by simp
  next
    case False
    then show ?thesis by (simp add: handleTileToolMove_def)
  qed
next
  fix r ts
  assume a: "find_layer (heap ed) (scene_layers sc) (scene_activeLayer sc) = Some r \<and>
     find is_tilemap (layer_objects (heap ed r)) = None \<and> app_tileset ed = Some ts \<and>
     outside_tilemap (new_tilemap now sc ts) (tile_coord (fst coords) (Fin 0) (Fin 32))
       (tile_coord (snd coords) (Fin 0) (Fin 32))"
  then show "handleTileToolDown now ed coords =
      Inr (ed\<lparr>heap := (heap ed)(r := (heap ed r)
              \<lparr>layer_objects := layer_objects (heap ed r) @ [new_tilemap now sc ts]\<rparr>)\<rparr>)"
    using handleTileToolDown_created [OF _ assms, of ts r now coords] by simp
  from a show "handleTileToolMove ed coords = Inr ed"
    using handleTileToolMove_no_tilemap [OF assms, of r coords] by simp
qed

theorem tile_paint_ignored_witness:
  "handleTileToolDown ''0'' (scenario_D\<lparr>activeScene := Some (default_scene\<lparr>scene_activeLayer := ''layer_9''\<rparr>)\<rparr>)
       (Fin 35, Fin 67)
     = Inr (scenario_D\<lparr>activeScene := Some (default_scene\<lparr>scene_activeLayer := ''layer_9''\<rparr>)\<rparr>) \<and>
   handleTileToolMove (scenario_D\<lparr>activeScene := Some (default_scene\<lparr>scene_activeLayer := ''layer_9''\<rparr>)\<rparr>)
       (Fin 35, Fin 67)
     = Inr (scenario_D\<lparr>activeScene := Some (default_scene\<lparr>scene_activeLayer := ''layer_9''\<rparr>)\<rparr>) \<and>
   handleTileToolDown ''0'' scenario_D (Fin 400, Fin 10) = Inr scenario_D \<and>
   handleTileToolMove scenario_D (Fin 400, Fin 10) = Inr scenario_D \<and>
   handleTileToolDown ''0'' (tile_tool_editor []) (Fin (- 5), Fin (- 5))
     = Inr ((tile_tool_editor [])\<lparr>heap := (heap (tile_tool_editor []))(0 := (heap (tile_tool_editor []) 0)
              \<lparr>layer_objects := [new_tilemap ''0'' default_scene ''tileset_1'']\<rparr>)\<rparr>) \<and>
   handleTileToolMove (tile_tool_editor []) (Fin (- 5), Fin (- 5)) = Inr (tile_tool_editor [])"
proof -
  let ?ed1 = "scenario_D\<lparr>activeScene := Some (default_scene\<lparr>scene_activeLayer := ''layer_9''\<rparr>)\<rparr>"
  have "activeScene ?ed1 = Some (default_scene\<lparr>scene_activeLayer := ''layer_9''\<rparr>)"
    by simp
  from tile_paint_ignored [OF this, of "''0''" "(Fin 35, Fin 67)"]
  have 1: "handleTileToolDown ''0'' ?ed1 (Fin 35, Fin 67) = Inr ?ed1 \<and>
      handleTileToolMove ?ed1 (Fin 35, Fin 67) = Inr ?ed1"
    by (simp add: scenario_D_def tile_tool_editor_def one_layer_editor_def default_scene_def find_layer_def)
  have out: "outside_tilemap tilemap_10x10 (tile_coord (Fin 400) (Fin 0) (Fin 32)) (tile_coord (Fin 10) (Fin 0) (Fin 32))"
    by (simp add: outside_tilemap_def tile_coord_def tilemap_10x10_fields)
  from tile_paint_ignored [OF scenario_D_fields(4), of "''0''" "(Fin 400, Fin 10)"]
  have 2: "handleTileToolDown ''0'' scenario_D (Fin 400, Fin 10) = Inr scenario_D \<and>
      handleTileToolMove scenario_D (Fin 400, Fin 10) = Inr scenario_D"
    using active_tilemap_scenario_D out by (simp add: tilemap_10x10_fields)
  have "activeScene (tile_tool_editor []) = Some default_scene"
    by (simp add: tile_tool_editor_def one_layer_editor_def)
  from tile_paint_ignored [OF this, of "''0''" "(Fin (- 5), Fin (- 5))"]
  have 3: "handleTileToolDown ''0'' (tile_tool_editor []) (Fin (- 5), Fin (- 5))
     = Inr ((tile_tool_editor [])\<lparr>heap := (heap (tile_tool_editor []))(0 := (heap (tile_tool_editor []) 0)
              \<lparr>layer_objects := [new_tilemap ''0'' default_scene ''tileset_1'']\<rparr>)\<rparr>) \<and>
      handleTileToolMove (tile_tool_editor []) (Fin (- 5), Fin (- 5)) = Inr (tile_tool_editor [])"
    by (simp add: tile_tool_editor_def one_layer_editor_def default_scene_def find_layer_def
        outside_tilemap_def tile_coord_def new_tilemap_fields)
  from 1 2 3 show ?thesis by blast
qed

section \<open>The rotate tool (C6)\<close>




section \<open>The length of tileData (C7)\<close>

text \<open>
  C7, as the claim has it, fails for the tilemap the tool creates in a scene of negative
  width: for the width -64 it has \<open>columns = ceil(-64 / 32) = -2\<close> and 19 rows, the
  loop to \<open>rows * columns = -38\<close> pushes nothing, and the empty \<open>tileData\<close> has not
  \<open>columns * rows\<close> entries.
\<close>

theorem negative_scene_tilemap_counterexample:
  "\<exists>ed' tm'. handleTileToolDown ''0'' negative_width_editor (Fin 35, Fin 67) = Inr ed' \<and>
     active_tilemap ed' = Some tm' \<and> obj_columns tm' = - 2 \<and> obj_rows tm' = 19 \<and>
     obj_tileData tm' = [] \<and> \<not> tilemap_consistent tm'"
proof -
  let ?sc = "default_scene\<lparr>scene_width := - 64\<rparr>"
  let ?tm = "new_tilemap ''0'' ?sc ''tileset_1''"
  have f: "obj_columns ?tm = - 2" "obj_rows ?tm = 19" "obj_tileData ?tm = []"
    by (simp_all add: new_tilemap_fields default_scene_def ceiling_eq_iff)
  have res: "resolved_tilemap ''0'' negative_width_editor = Some ?tm"
    by (simp add: resolved_tilemap_def negative_width_editor_def tile_tool_editor_def
        one_layer_editor_def default_scene_def find_layer_def)
  have out: "outside_tilemap ?tm (tile_coord (Fin 35) (obj_x ?tm) (obj_tileSize ?tm))
      (tile_coord (Fin 67) (obj_y ?tm) (obj_tileSize ?tm))"
    by (simp add: outside_tilemap_def tile_coord_def new_tilemap_origin f)
  from tile_down_resolved [OF res] obtain sc r ed1 where "activeScene ed1 = Some sc"
    and "find_layer (heap ed1) (scene_layers sc) (scene_activeLayer sc) = Some r"
    and "find is_tilemap (layer_objects (heap ed1 r)) = Some ?tm"
    and down: "\<And>coords. handleTileToolDown ''0'' negative_width_editor coords =
           (if outside_tilemap ?tm (tile_coord (fst coords) (obj_x ?tm) (obj_tileSize ?tm))
                 (tile_coord (snd coords) (obj_y ?tm) (obj_tileSize ?tm))
            then Inr ed1
            else Inr (place_tile ed1 r ?tm (tile_coord (fst coords) (obj_x ?tm) (obj_tileSize ?tm))
                        (tile_coord (snd coords) (obj_y ?tm) (obj_tileSize ?tm))))"
    by blast
  then have "active_tilemap ed1 = Some ?tm" by (simp add: active_tilemapI)
  moreover have "handleTileToolDown ''0'' negative_width_editor (Fin 35, Fin 67) = Inr ed1"
    unfolding down [of "(Fin 35, Fin 67)"] using out by simp
  moreover have "\<not> tilemap_consistent ?tm"
    by (simp add: tilemap_consistent_def f)
  ultimately show ?thesis using f by blast
qed

text \<open>
  C7, amended. The tilemap the tile tool creates has \<open>columns = ceil(sceneWidth / 32)\<close>,
  \<open>rows = ceil(sceneHeight / 32)\<close> and as \<open>tileData\<close> the zeros the loop to
  \<open>rows * columns\<close> pushes; it satisfies \<open>tileData.length = columns * rows\<close> exactly
  when that product is not negative, as it is for every scene of non-negative width and
  height. In such a scene, when all tilemaps satisfy the invariant, they all do after a
  pointer-down of the tile tool, and the tilemap the handler resolved keeps its columns
  and rows and has \<open>columns * rows\<close> entries; the same holds after a pointer-move, in
  any scene. A write of either handler on a tilemap that satisfies the invariant goes to
  the index \<open>row * columns + col\<close> of a cell inside the tilemap, which is below the
  length, and replaces that one entry.
\<close>

theorem tilemap_length_invariant:
  assumes "activeScene ed = Some sc"
  shows "obj_columns (new_tilemap now sc ts) = \<lceil>scene_width sc / 32\<rceil> \<and>
         obj_rows (new_tilemap now sc ts) = \<lceil>scene_height sc / 32\<rceil> \<and>
         obj_tileData (new_tilemap now sc ts)
           = replicate (nat (\<lceil>scene_height sc / 32\<rceil> * \<lceil>scene_width sc / 32\<rceil>)) (Some 0) \<and>
         (tilemap_consistent (new_tilemap now sc ts)
            \<longleftrightarrow> 0 \<le> \<lceil>scene_width sc / 32\<rceil> * \<lceil>scene_height sc / 32\<rceil>) \<and>
         (0 \<le> scene_width sc \<and> 0 \<le> scene_height sc \<longrightarrow>
            0 \<le> \<lceil>scene_width sc / 32\<rceil> * \<lceil>scene_height sc / 32\<rceil>) \<and>
         (all_tilemaps_consistent ed \<and> 0 \<le> \<lceil>scene_width sc / 32\<rceil> * \<lceil>scene_height sc / 32\<rceil> \<longrightarrow>
            (\<exists>ed'. handleTileToolDown now ed coords = Inr ed' \<and> all_tilemaps_consistent ed' \<and>
               (\<forall>tm. resolved_tilemap now ed = Some tm \<longrightarrow>
                  (\<exists>tm'. active_tilemap ed' = Some tm' \<and> obj_columns tm' = obj_columns tm \<and>
                     obj_rows tm' = obj_rows tm \<and>
                     int (length (obj_tileData tm')) = obj_columns tm * obj_rows tm)))) \<and>
         (all_tilemaps_consistent ed \<longrightarrow>
            (\<exists>ed'. handleTileToolMove ed coords = Inr ed' \<and> all_tilemaps_consistent ed' \<and>
               (\<forall>tm. active_tilemap ed = Some tm \<longrightarrow>
                  (\<exists>tm'. active_tilemap ed' = Some tm' \<and> obj_columns tm' = obj_columns tm \<and>
                     obj_rows tm' = obj_rows tm \<and>
                     int (length (obj_tileData tm')) = obj_columns tm * obj_rows tm)))) \<and>
         (\<forall>tm col row. tilemap_consistent tm \<and>
              tile_coord (fst coords) (obj_x tm) (obj_tileSize tm) = Fin (of_int col) \<and>
              tile_coord (snd coords) (obj_y tm) (obj_tileSize tm) = Fin (of_int row) \<and>
              0 \<le> col \<and> col < obj_columns tm \<and> 0 \<le> row \<and> row < obj_rows tm \<longrightarrow>
            nat (row * obj_columns tm + col) < length (obj_tileData tm) \<and>
            (resolved_tilemap now ed = Some tm \<longrightarrow>
               (\<exists>ed'. handleTileToolDown now ed coords = Inr ed' \<and>
                  active_tilemap ed' =
                    Some (tm\<lparr>obj_tileData := (obj_tileData tm)
                            [nat (row * obj_columns tm + col) := Some (selectedTile_or_1 ed)]\<rparr>))) \<and>
            (isDragging ed \<and> active_tilemap ed = Some tm \<and>
               lastPlacedTile ed \<noteq> Some (Fin (of_int col), Fin (of_int row)) \<longrightarrow>
               (\<exists>ed'. handleTileToolMove ed coords = Inr ed' \<and>
                  active_tilemap ed' =
                    Some (tm\<lparr>obj_tileData := (obj_tileData tm)
                            [nat (row * obj_columns tm + col) := Some (selectedTile_or_1 ed)]\<rparr>))))"
proof (intro conjI)
  show "obj_columns (new_tilemap now sc ts) = \<lceil>scene_width sc / 32\<rceil>"
    and "obj_rows (new_tilemap now sc ts) = \<lceil>scene_height sc / 32\<rceil>"
    and "obj_tileData (new_tilemap now sc ts)
           = replicate (nat (\<lceil>scene_height sc / 32\<rceil> * \<lceil>scene_width sc / 32\<rceil>)) (Some 0)"
    by (rule new_tilemap_fields)+
  show "tilemap_consistent (new_tilemap now sc ts)
            \<longleftrightarrow> 0 \<le> \<lceil>scene_width sc / 32\<rceil> * \<lceil>scene_height sc / 32\<rceil>"
    by (rule new_tilemap_consistent_iff)
  show "0 \<le> scene_width sc \<and> 0 \<le> scene_height sc \<longrightarrow>
            0 \<le> \<lceil>scene_width sc / 32\<rceil> * \<lceil>scene_height sc / 32\<rceil>"
    using nonneg_size_nonneg_cells by blast
  show "all_tilemaps_consistent ed \<and> 0 \<le> \<lceil>scene_width sc / 32\<rceil> * \<lceil>scene_height sc / 32\<rceil> \<longrightarrow>
            (\<exists>ed'. handleTileToolDown now ed coords = Inr ed' \<and> all_tilemaps_consistent ed' \<and>
               (\<forall>tm. resolved_tilemap now ed = Some tm \<longrightarrow>
                  (\<exists>tm'. active_tilemap ed' = Some tm' \<and> obj_columns tm' = obj_columns tm \<and>
                     obj_rows tm' = obj_rows tm \<and>
                     int (length (obj_tileData tm')) = obj_columns tm * obj_rows tm)))"
  proof
    assume a: "all_tilemaps_consistent ed \<and> 0 \<le> \<lceil>scene_width sc / 32\<rceil> * \<lceil>scene_height sc / 32\<rceil>"
    with tile_down_consistent [OF assms, of now coords]
    obtain ed' where d: "handleTileToolDown now ed coords = Inr ed'" and c: "all_tilemaps_consistent ed'"
      by blast
    have "\<exists>tm'. active_tilemap ed' = Some tm' \<and> obj_columns tm' = obj_columns tm \<and>
        obj_rows tm' = obj_rows tm \<and>
        int (length (obj_tileData tm')) = obj_columns tm * obj_rows tm"
      if "resolved_tilemap now ed = Some tm" for tm
      using tile_down_result [OF that d] c by (rule tile_handlers_keep_shape)
    with d c show "\<exists>ed'. handleTileToolDown now ed coords = Inr ed' \<and> all_tilemaps_consistent ed' \<and>
               (\<forall>tm. resolved_tilemap now ed = Some tm \<longrightarrow>
                  (\<exists>tm'. active_tilemap ed' = Some tm' \<and> obj_columns tm' = obj_columns tm \<and>
                     obj_rows tm' = obj_rows tm \<and>
                     int (length (obj_tileData tm')) = obj_columns tm * obj_rows tm))"
      by blast
  qed
  show "all_tilemaps_consistent ed \<longrightarrow>
            (\<exists>ed'. handleTileToolMove ed coords = Inr ed' \<and> all_tilemaps_consistent ed' \<and>
               (\<forall>tm. active_tilemap ed = Some tm \<longrightarrow>
                  (\<exists>tm'. active_tilemap ed' = Some tm' \<and> obj_columns tm' = obj_columns tm \<and>
                     obj_rows tm' = obj_rows tm \<and>
                     int (length (obj_tileData tm')) = obj_columns tm * obj_rows tm)))"
  proof
    assume a: "all_tilemaps_consistent ed"
    with handleTileToolMove_consistent [OF assms, of coords]
    obtain ed' where d: "handleTileToolMove ed coords = Inr ed'" and c: "all_tilemaps_consistent ed'"
      by blast
    have "\<exists>tm'. active_tilemap ed' = Some tm' \<and> obj_columns tm' = obj_columns tm \<and>
        obj_rows tm' = obj_rows tm \<and>
        int (length (obj_tileData tm')) = obj_columns tm * obj_rows tm"
      if t: "active_tilemap ed = Some tm" for tm
    proof -
      from tile_handlers_existing_result [OF t, of now coords ed'] d t
      have "active_tilemap ed' = Some tm \<or>
         (\<exists>k. active_tilemap ed' =
                 Some (tm\<lparr>obj_tileData := array_set (obj_tileData tm) k (selectedTile_or_1 ed)\<rparr>))"
        by auto
      then show ?thesis using c by (rule tile_handlers_keep_shape)
    qed
    with d c show "\<exists>ed'. handleTileToolMove ed coords = Inr ed' \<and> all_tilemaps_consistent ed' \<and>
               (\<forall>tm. active_tilemap ed = Some tm \<longrightarrow>
                  (\<exists>tm'. active_tilemap ed' = Some tm' \<and> obj_columns tm' = obj_columns tm \<and>
                     obj_rows tm' = obj_rows tm \<and>
                     int (length (obj_tileData tm')) = obj_columns tm * obj_rows tm))"
      by blast
  qed
  show "\<forall>tm col row. tilemap_consistent tm \<and>
              tile_coord (fst coords) (obj_x tm) (obj_tileSize tm) = Fin (of_int col) \<and>
              tile_coord (snd coords) (obj_y tm) (obj_tileSize tm) = Fin (of_int row) \<and>
              0 \<le> col \<and> col < obj_columns tm \<and> 0 \<le> row \<and> row < obj_rows tm \<longrightarrow>
            nat (row * obj_columns tm + col) < length (obj_tileData tm) \<and>
            (resolved_tilemap now ed = Some tm \<longrightarrow>
               (\<exists>ed'. handleTileToolDown now ed coords = Inr ed' \<and>
                  active_tilemap ed' =
                    Some (tm\<lparr>obj_tileData := (obj_tileData tm)
                            [nat (row * obj_columns tm + col) := Some (selectedTile_or_1 ed)]\<rparr>))) \<and>
            (isDragging ed \<and> active_tilemap ed = Some tm \<and>
               lastPlacedTile ed \<noteq> Some (Fin (of_int col), Fin (of_int row)) \<longrightarrow>
               (\<exists>ed'. handleTileToolMove ed coords = Inr ed' \<and>
                  active_tilemap ed' =
                    Some (tm\<lparr>obj_tileData := (obj_tileData tm)
                            [nat (row * obj_columns tm + col) := Some (selectedTile_or_1 ed)]\<rparr>)))"
  proof (intro allI impI)
    fix tm col row
    assume a: "tilemap_consistent tm \<and>
              tile_coord (fst coords) (obj_x tm) (obj_tileSize tm) = Fin (of_int col) \<and>
              tile_coord (snd coords) (obj_y tm) (obj_tileSize tm) = Fin (of_int row) \<and>
              0 \<le> col \<and> col < obj_columns tm \<and> 0 \<le> row \<and> row < obj_rows tm"
    then have c: "tilemap_consistent tm"
      and x: "tile_coord (fst coords) (obj_x tm) (obj_tileSize tm) = Fin (of_int col)"
      and y: "tile_coord (snd coords) (obj_y tm) (obj_tileSize tm) = Fin (of_int row)"
      and b: "0 \<le> col" "col < obj_columns tm" "0 \<le> row" "row < obj_rows tm"
      by simp_all
    note w = array_set_consistent [OF c b]
    have down: "\<exists>ed'. handleTileToolDown now ed coords = Inr ed' \<and>
        active_tilemap ed' =
          Some (tm\<lparr>obj_tileData := (obj_tileData tm)
                  [nat (row * obj_columns tm + col) := Some (selectedTile_or_1 ed)]\<rparr>)"
      if "resolved_tilemap now ed = Some tm"
      using tile_down_write [OF that x y b] unfolding w(2) by blast
    have move: "\<exists>ed'. handleTileToolMove ed coords = Inr ed' \<and>
        active_tilemap ed' =
          Some (tm\<lparr>obj_tileData := (obj_tileData tm)
                  [nat (row * obj_columns tm + col) := Some (selectedTile_or_1 ed)]\<rparr>)"
      if "isDragging ed \<and> active_tilemap ed = Some tm \<and>
          lastPlacedTile ed \<noteq> Some (Fin (of_int col), Fin (of_int row))"
      using tile_move_write [OF _ _ x y b, of ed] that unfolding w(2) by blast
    from w(1) down move
    show "nat (row * obj_columns tm + col) < length (obj_tileData tm) \<and>
            (resolved_tilemap now ed = Some tm \<longrightarrow>
               (\<exists>ed'. handleTileToolDown now ed coords = Inr ed' \<and>
                  active_tilemap ed' =
                    Some (tm\<lparr>obj_tileData := (obj_tileData tm)
                            [nat (row * obj_columns tm + col) := Some (selectedTile_or_1 ed)]\<rparr>))) \<and>
            (isDragging ed \<and> active_tilemap ed = Some tm \<and>
               lastPlacedTile ed \<noteq> Some (Fin (of_int col), Fin (of_int row)) \<longrightarrow>
               (\<exists>ed'. handleTileToolMove ed coords = Inr ed' \<and>
                  active_tilemap ed' =
                    Some (tm\<lparr>obj_tileData := (obj_tileData tm)
                            [nat (row * obj_columns tm + col) := Some (selectedTile_or_1 ed)]\<rparr>)))"
      by blast
  qed
qed

theorem tilemap_length_invariant_witness:
  "all_tilemaps_consistent (tile_tool_editor []) \<and> all_tilemaps_consistent scenario_D \<and>
   (\<exists>ed' tm'. handleTileToolDown ''0'' (tile_tool_editor []) (Fin 35, Fin 67) = Inr ed' \<and>
      all_tilemaps_consistent ed' \<and> active_tilemap ed' = Some tm' \<and>
      obj_columns tm' = 25 \<and> obj_rows tm' = 19 \<and> length (obj_tileData tm') = 475) \<and>
   (\<exists>ed'. handleTileToolDown ''0'' scenario_D (Fin 35, Fin 67) = Inr ed' \<and>
      active_tilemap ed' =
        Some (tilemap_10x10\<lparr>obj_tileData := (replicate 100 (Some 0))[21 := Some 1]\<rparr>)) \<and>
   (\<exists>ed'. handleTileToolMove scenario_D (Fin 100, Fin 67) = Inr ed' \<and>
      active_tilemap ed' =
        Some (tilemap_10x10\<lparr>obj_tileData := (replicate 100 (Some 0))[23 := Some 1]\<rparr>))"
proof -
  note c = example_editors_consistent
  note th1 = tilemap_length_invariant [OF tile_tool_editor_fields(4) [of "[]"],
      where now = "''0''" and ts = "''tileset_1''" and coords = "(Fin 35, Fin 67)"]
  have prod: "0 \<le> \<lceil>scene_width default_scene / 32\<rceil> * \<lceil>scene_height default_scene / 32\<rceil>"
    by (simp add: default_scene_def ceiling_eq_iff)
  from th1 c(1) prod
  obtain ed' where d: "handleTileToolDown ''0'' (tile_tool_editor []) (Fin 35, Fin 67) = Inr ed'"
    and ce: "all_tilemaps_consistent ed'"
    and "\<forall>tm. resolved_tilemap ''0'' (tile_tool_editor []) = Some tm \<longrightarrow>
           (\<exists>tm'. active_tilemap ed' = Some tm' \<and> obj_columns tm' = obj_columns tm \<and>
              obj_rows tm' = obj_rows tm \<and>
              int (length (obj_tileData tm')) = obj_columns tm * obj_rows tm)"
    by blast
  then obtain tm' where "active_tilemap ed' = Some tm'" and "obj_columns tm' = 25"
    and "obj_rows tm' = 19" and "length (obj_tileData tm') = 475"
    using resolved_tilemap_examples(3) [of "''0''"] by (auto simp: first_tilemap_fields)
  with d ce have 1: "\<exists>ed' tm'. handleTileToolDown ''0'' (tile_tool_editor []) (Fin 35, Fin 67) = Inr ed' \<and>
      all_tilemaps_consistent ed' \<and> active_tilemap ed' = Some tm' \<and>
      obj_columns tm' = 25 \<and> obj_rows tm' = 19 \<and> length (obj_tileData tm') = 475"
    by blast
  note th2 = tilemap_length_invariant [OF scenario_D_fields(4),
      where now = "''0''" and ts = "''tileset_1''" and coords = "(Fin 35, Fin 67)"]
  have "tilemap_consistent tilemap_10x10 \<and>
      tile_coord (fst (Fin 35, Fin 67)) (obj_x tilemap_10x10) (obj_tileSize tilemap_10x10) = Fin (of_int 1) \<and>
      tile_coord (snd (Fin 35, Fin 67)) (obj_y tilemap_10x10) (obj_tileSize tilemap_10x10) = Fin (of_int 2) \<and>
      0 \<le> (1::int) \<and> 1 < obj_columns tilemap_10x10 \<and> 0 \<le> (2::int) \<and> 2 < obj_rows tilemap_10x10"
    using c(3) by (simp add: tilemap_10x10_fields scenario_D_cells del: of_int_numeral of_int_1)
  with th2 resolved_tilemap_examples(1) [of "''0''"]
  have "\<exists>ed'. handleTileToolDown ''0'' scenario_D (Fin 35, Fin 67) = Inr ed' \<and>
      active_tilemap ed' =
        Some (tilemap_10x10\<lparr>obj_tileData := (obj_tileData tilemap_10x10)
                [nat (2 * obj_columns tilemap_10x10 + 1) := Some (selectedTile_or_1 scenario_D)]\<rparr>)"
    by blast
  then have 2: "\<exists>ed'. handleTileToolDown ''0'' scenario_D (Fin 35, Fin 67) = Inr ed' \<and>
      active_tilemap ed' =
        Some (tilemap_10x10\<lparr>obj_tileData := (replicate 100 (Some 0))[21 := Some 1]\<rparr>)"
    by (simp add: tilemap_10x10_fields scenario_D_fields)
  note th3 = tilemap_length_invariant [OF scenario_D_fields(4),
      where now = "''0''" and ts = "''tileset_1''" and coords = "(Fin 100, Fin 67)"]
  have "tilemap_consistent tilemap_10x10 \<and>
      tile_coord (fst (Fin 100, Fin 67)) (obj_x tilemap_10x10) (obj_tileSize tilemap_10x10) = Fin (of_int 3) \<and>
      tile_coord (snd (Fin 100, Fin 67)) (obj_y tilemap_10x10) (obj_tileSize tilemap_10x10) = Fin (of_int 2) \<and>
      0 \<le> (3::int) \<and> 3 < obj_columns tilemap_10x10 \<and> 0 \<le> (2::int) \<and> 2 < obj_rows tilemap_10x10"
    using c(3) by (simp add: tilemap_10x10_fields scenario_D_cells del: of_int_numeral of_int_1)
  moreover have "isDragging scenario_D \<and> active_tilemap scenario_D = Some tilemap_10x10 \<and>
      lastPlacedTile scenario_D \<noteq> Some (Fin (of_int 3), Fin (of_int 2))"
    by (simp add: scenario_D_fields active_tilemap_scenario_D)
  ultimately have "\<exists>ed'. handleTileToolMove scenario_D (Fin 100, Fin 67) = Inr ed' \<and>
      active_tilemap ed' =
        Some (tilemap_10x10\<lparr>obj_tileData := (obj_tileData tilemap_10x10)
                [nat (2 * obj_columns tilemap_10x10 + 3) := Some (selectedTile_or_1 scenario_D)]\<rparr>)"
    using th3 by blast
  then have 3: "\<exists>ed'. handleTileToolMove scenario_D (Fin 100, Fin 67) = Inr ed' \<and>
      active_tilemap ed' =
        Some (tilemap_10x10\<lparr>obj_tileData := (replicate 100 (Some 0))[23 := Some 1]\<rparr>)"
    by (simp add: tilemap_10x10_fields scenario_D_fields)
  from c(1,2) 1 2 3 show ?thesis by blast
qed

section \<open>The floor of the scale tool (C2)\<close>

text \<open>
  C2 asks for a width and a height of at least 10 after any scale drag. The code does
  not keep that. With snapping off, a drag that starts on the left edge of the
  rectangle at (100, 100) of size 50 by 50, at the pointer (100, 120), and moves to
  (100, 130) has the scale factor \<open>0 / 0 = NaN\<close> for x, and \<open>Math.max(10, NaN)\<close> is
  NaN: the width written is NaN, which is not \<open>>= 10\<close>. The height, scaled by
  \<open>30 / 20\<close>, is 75.
\<close>

theorem scale_floor_fails_on_zero_divisor:
  "\<exists>ed1. handleScaleToolDown (Some (rect_object ''object_1'' 100 100 50 50)) scale_tool_editor
            (Fin 100, Fin 120) = Inr ed1 \<and>
     map (\<lambda>ob. (obj_width ob, obj_height ob))
       (layer_objects (heap (handleScaleToolMove ed1 (Fin 100, Fin 130)) 0)) = [(NaN, Fin 75)] \<and>
     \<not> jge NaN (Fin 10)"
  unfolding scale_down_on_edge
  by (simp add: handleScaleToolMove_def scale_tool_editor_def one_layer_editor_def rect_object_def
      scaled_def signed_inf_def update_object_def)


text \<open>
  With snapping on, the floor is lost on finite values too, since the size is snapped
  after it is clamped: a drag from the corner (150, 150) to (105, 105) scales by 0.1,
  is clamped to 10 and then rounded to the nearest multiple of 32, which is 0.
\<close>

lemma scale_floor_lost_by_snapping:
  "map (\<lambda>ob. (obj_width ob, obj_height ob))
     (layer_objects (heap (handleScaleToolMove
        (scale_tool_editor
           \<lparr>snapToGrid := True,
            scaleInfo := Some [\<lparr>si_id = ''object_1'', si_layer = 0, si_startX = Fin 100,
              si_startY = Fin 100, si_startWidth = Fin 50, si_startHeight = Fin 50,
              si_startMouseX = Fin 150, si_startMouseY = Fin 150\<rparr>]\<rparr>)
        (Fin 105, Fin 105)) 0)) = [(Fin 0, Fin 0)]"
  by (simp add: handleScaleToolMove_def scale_tool_editor_def one_layer_editor_def rect_object_def
      scaled_def snapToGridValue_def update_object_def)

section \<open>A zero divisor in the scale factor (C9)\<close>

text \<open>
  C9, as the claim has it, fails: with a zero divisor the width written is not always
  NaN or an infinity. A drag that starts on the left edge of the rectangle, at
  (100, 120), and moves left of it to (95, 130) has the scale factor -Infinity, and
  \<open>Math.max(10, 50 * -Infinity)\<close> is the clamped value 10.
\<close>

theorem scale_zero_divisor_clamped_counterexample:
  "\<exists>ed1 i. handleScaleToolDown (Some (rect_object ''object_1'' 100 100 50 50)) scale_tool_editor
              (Fin 100, Fin 120) = Inr ed1 \<and>
     scaleInfo ed1 = Some [i] \<and> si_startMouseX i = si_startX i \<and>
     map obj_width (layer_objects (heap (handleScaleToolMove ed1 (Fin 95, Fin 130)) 0)) = [Fin 10]"
  unfolding scale_down_on_edge
  by (simp add: handleScaleToolMove_def scale_tool_editor_def one_layer_editor_def rect_object_def
      scaled_def signed_inf_def update_object_def)

text \<open>
  C9, amended. When a scale drag begins with the pointer's x equal to the object's x,
  the divisor of the scale factor is zero and the factor is not finite: +Infinity,
  -Infinity or NaN, by the sign of \<open>pointer.x - startX\<close>. The width
  \<open>Math.max(10, startWidth * scaleX)\<close> is then NaN when the pointer is at the start x
  or the start width is 0, +Infinity when \<open>(pointer.x - startX) * startWidth\<close> is
  positive, and the clamped value 10 when it is negative; -Infinity is never written.
  With snapping on, that value goes through \<open>snapToGridValue\<close>. The same holds for y
  and the height.
\<close>

theorem scale_zero_divisor_size:
  assumes "scaleInfo ed = Some infos" and "i \<in> set infos"
    and "distinct (map (\<lambda>i. (si_layer i, si_id i)) infos)"
    and "find (\<lambda>ob. obj_id ob = si_id i) (layer_objects (heap ed (si_layer i))) = Some obj"
  shows "(\<forall>sx w px cy. si_startX i = Fin sx \<and> si_startMouseX i = Fin sx \<and> si_startWidth i = Fin w \<longrightarrow>
            jdiv (jsub (Fin px) (si_startX i)) (jsub (si_startMouseX i) (si_startX i))
              = signed_inf (px - sx) \<and>
            \<not> isFinite (signed_inf (px - sx)) \<and>
            (\<exists>ob'. find (\<lambda>ob. obj_id ob = si_id i)
                     (layer_objects (heap (handleScaleToolMove ed (Fin px, cy)) (si_layer i))) = Some ob' \<and>
               obj_width ob' =
                 (if snapToGrid ed then snapToGridValue ed (size_at_zero_divisor (px - sx) w)
                  else size_at_zero_divisor (px - sx) w))) \<and>
         (\<forall>sy h cx py. si_startY i = Fin sy \<and> si_startMouseY i = Fin sy \<and> si_startHeight i = Fin h \<longrightarrow>
            jdiv (jsub (Fin py) (si_startY i)) (jsub (si_startMouseY i) (si_startY i))
              = signed_inf (py - sy) \<and>
            \<not> isFinite (signed_inf (py - sy)) \<and>
            (\<exists>ob'. find (\<lambda>ob. obj_id ob = si_id i)
                     (layer_objects (heap (handleScaleToolMove ed (cx, Fin py)) (si_layer i))) = Some ob' \<and>
               obj_height ob' =
                 (if snapToGrid ed then snapToGridValue ed (size_at_zero_divisor (py - sy) h)
                  else size_at_zero_divisor (py - sy) h)))"
proof -
  have target: "find (\<lambda>ob. obj_id ob = si_id i)
      (layer_objects (heap (handleScaleToolMove ed c) (si_layer i)))
      = Some (obj\<lparr>obj_width := fst (scaled ed i c), obj_height := snd (scaled ed i c)\<rparr>)" for c
    using scale_objects_target [OF assms(2,3,4), of c] assms(1)
    by (simp add: handleScaleToolMove_def)
  show ?thesis
  proof (intro conjI allI impI)
    fix sx w px cy
    assume a: "si_startX i = Fin sx \<and> si_startMouseX i = Fin sx \<and> si_startWidth i = Fin w"
    then show "jdiv (jsub (Fin px) (si_startX i)) (jsub (si_startMouseX i) (si_startX i))
        = signed_inf (px - sx)"
      by (simp add: scale_factor_at_zero_divisor)
    show "\<not> isFinite (signed_inf (px - sx))"
      by (rule scale_factor_at_zero_divisor)
    from a have "fst (scaled ed i (Fin px, cy)) =
        (if snapToGrid ed then snapToGridValue ed (size_at_zero_divisor (px - sx) w)
         else size_at_zero_divisor (px - sx) w)"
      by (intro scaled_zero_divisor_x) simp_all
    with target [of "(Fin px, cy)"]
    show "\<exists>ob'. find (\<lambda>ob. obj_id ob = si_id i)
            (layer_objects (heap (handleScaleToolMove ed (Fin px, cy)) (si_layer i))) = Some ob' \<and>
          obj_width ob' =
            (if snapToGrid ed then snapToGridValue ed (size_at_zero_divisor (px - sx) w)
             else size_at_zero_divisor (px - sx) w)"
      by simp
  next
    fix sy h cx py
    assume a: "si_startY i = Fin sy \<and> si_startMouseY i = Fin sy \<and> si_startHeight i = Fin h"
    then show "jdiv (jsub (Fin py) (si_startY i)) (jsub (si_startMouseY i) (si_startY i))
        = signed_inf (py - sy)"
      by (simp add: scale_factor_at_zero_divisor)
    show "\<not> isFinite (signed_inf (py - sy))"
      by (rule scale_factor_at_zero_divisor)
    from a have "snd (scaled ed i (cx, Fin py)) =
        (if snapToGrid ed then snapToGridValue ed (size_at_zero_divisor (py - sy) h)
         else size_at_zero_divisor (py - sy) h)"
      by (intro scaled_zero_divisor_y) simp_all
    with target [of "(cx, Fin py)"]
    show "\<exists>ob'. find (\<lambda>ob. obj_id ob = si_id i)
            (layer_objects (heap (handleScaleToolMove ed (cx, Fin py)) (si_layer i))) = Some ob' \<and>
          obj_height ob' =
            (if snapToGrid ed then snapToGridValue ed (size_at_zero_divisor (py - sy) h)
             else size_at_zero_divisor (py - sy) h)"
      by simp
  qed
qed

theorem scale_zero_divisor_size_witness:
  "handleScaleToolDown (Some (rect_object ''object_1'' 100 100 50 50)) scale_tool_editor
       (Fin 100, Fin 100) = Inr scaling_from_corner \<and>
   (\<exists>ob'. find (\<lambda>ob. obj_id ob = ''object_1'')
            (layer_objects (heap (handleScaleToolMove scaling_from_corner (Fin 130, Fin 90)) 0)) = Some ob' \<and>
      obj_width ob' = PInf) \<and>
   (\<exists>ob'. find (\<lambda>ob. obj_id ob = ''object_1'')
            (layer_objects (heap (handleScaleToolMove scaling_from_corner (Fin 130, Fin 90)) 0)) = Some ob' \<and>
      obj_height ob' = Fin 10)"
proof -
  let ?i = "\<lparr>si_id = ''object_1'', si_layer = 0, si_startX = Fin 100,
          si_startY = Fin 100, si_startWidth = Fin 50, si_startHeight = Fin 50,
          si_startMouseX = Fin 100, si_startMouseY = Fin 100\<rparr>"
  have "scaleInfo scaling_from_corner = Some [?i]" and "?i \<in> set [?i]"
    and "distinct (map (\<lambda>i. (si_layer i, si_id i)) [?i])"
    and "find (\<lambda>ob. obj_id ob = si_id ?i) (layer_objects (heap scaling_from_corner (si_layer ?i)))
           = Some (rect_object ''object_1'' 100 100 50 50)"
    by (simp_all add: scaling_from_corner_def scale_tool_editor_def one_layer_editor_def rect_object_def)
  note th = scale_zero_divisor_size [OF this]
  have off: "\<not> snapToGrid scaling_from_corner"
    by (simp add: scaling_from_corner_def scale_tool_editor_def one_layer_editor_def)
  have 1: "\<exists>ob'. find (\<lambda>ob. obj_id ob = ''object_1'')
            (layer_objects (heap (handleScaleToolMove scaling_from_corner (Fin 130, Fin 90)) 0)) = Some ob' \<and>
      obj_width ob' = PInf"
    using th [THEN conjunct1] off
    apply -
    apply (drule spec [of _ 100], drule spec [of _ 50], drule spec [of _ 130], drule spec [of _ "Fin 90"])
    apply (simp add: size_at_zero_divisor_def)
    done
  have 2: "\<exists>ob'. find (\<lambda>ob. obj_id ob = ''object_1'')
            (layer_objects (heap (handleScaleToolMove scaling_from_corner (Fin 130, Fin 90)) 0)) = Some ob' \<and>
      obj_height ob' = Fin 10"
    using th [THEN conjunct2] off
    apply -
    apply (drule spec [of _ 100], drule spec [of _ 50], drule spec [of _ "Fin 130"], drule spec [of _ 90])
    apply (simp add: size_at_zero_divisor_def)
    done
  have "handleScaleToolDown (Some (rect_object ''object_1'' 100 100 50 50)) scale_tool_editor
       (Fin 100, Fin 100) = Inr scaling_from_corner"
    unfolding scale_down_on_edge scaling_from_corner_def ..
  with 1 2 show ?thesis by blast
qed

section \<open>The value the tile tool writes (C10)\<close>

text \<open>
  C10. The tile tool writes \<open>selectedTile || 1\<close>: the value is the selected tile
  index when that is set and not 0, it is 1 when the index is unset or 0, and it is
  never 0. A pointer-down on a cell inside the tilemap it resolves, and a pointer-move
  while dragging onto a cell inside the tilemap other than the last one placed, leave
  that value in the cell. After a pointer-down or a pointer-move every entry of
  \<open>tileData\<close> that holds the empty tile 0 held it before, at the same index: the
  tool does not erase a cell.
\<close>

theorem tile_paint_never_writes_empty:
  "selectedTile_or_1 ed \<noteq> 0 \<and>
   (app_selectedTile ed = None \<or> app_selectedTile ed = Some 0 \<longrightarrow> selectedTile_or_1 ed = 1) \<and>
   (\<forall>t. app_selectedTile ed = Some t \<and> t \<noteq> 0 \<longrightarrow> selectedTile_or_1 ed = t) \<and>
   (\<forall>tm col row. tilemap_consistent tm \<and>
        tile_coord (fst coords) (obj_x tm) (obj_tileSize tm) = Fin (of_int col) \<and>
        tile_coord (snd coords) (obj_y tm) (obj_tileSize tm) = Fin (of_int row) \<and>
        0 \<le> col \<and> col < obj_columns tm \<and> 0 \<le> row \<and> row < obj_rows tm \<longrightarrow>
      (resolved_tilemap now ed = Some tm \<longrightarrow>
         (\<exists>ed' tm'. handleTileToolDown now ed coords = Inr ed' \<and> active_tilemap ed' = Some tm' \<and>
            obj_tileData tm' ! nat (row * obj_columns tm + col) = Some (selectedTile_or_1 ed))) \<and>
      (isDragging ed \<and> active_tilemap ed = Some tm \<and>
         lastPlacedTile ed \<noteq> Some (Fin (of_int col), Fin (of_int row)) \<longrightarrow>
         (\<exists>ed' tm'. handleTileToolMove ed coords = Inr ed' \<and> active_tilemap ed' = Some tm' \<and>
            obj_tileData tm' ! nat (row * obj_columns tm + col) = Some (selectedTile_or_1 ed)))) \<and>
   (\<forall>tm ed'. active_tilemap ed = Some tm \<and>
        (handleTileToolDown now ed coords = Inr ed' \<or> handleTileToolMove ed coords = Inr ed') \<longrightarrow>
      (\<exists>tm'. active_tilemap ed' = Some tm' \<and>
         (\<forall>j < length (obj_tileData tm'). obj_tileData tm' ! j = Some 0 \<longrightarrow>
            j < length (obj_tileData tm) \<and> obj_tileData tm ! j = Some 0))) \<and>
   (\<forall>tm ed'. resolved_tilemap now ed = Some tm \<and> handleTileToolDown now ed coords = Inr ed' \<longrightarrow>
      (\<exists>tm'. active_tilemap ed' = Some tm' \<and>
         (\<forall>j < length (obj_tileData tm'). obj_tileData tm' ! j = Some 0 \<longrightarrow>
            j < length (obj_tileData tm) \<and> obj_tileData tm ! j = Some 0)))"
proof (intro conjI allI impI)
  show "selectedTile_or_1 ed \<noteq> 0" by (rule selectedTile_or_1_nonzero)
next
  assume "app_selectedTile ed = None \<or> app_selectedTile ed = Some 0"
  then show "selectedTile_or_1 ed = 1" by (auto simp: selectedTile_or_1_def)
next
  fix t
  assume "app_selectedTile ed = Some t \<and> t \<noteq> 0"
  then show "selectedTile_or_1 ed = t" by (simp add: selectedTile_or_1_def)
next
  fix tm col row
  assume a: "tilemap_consistent tm \<and>
        tile_coord (fst coords) (obj_x tm) (obj_tileSize tm) = Fin (of_int col) \<and>
        tile_coord (snd coords) (obj_y tm) (obj_tileSize tm) = Fin (of_int row) \<and>
        0 \<le> col \<and> col < obj_columns tm \<and> 0 \<le> row \<and> row < obj_rows tm"
  then have c: "tilemap_consistent tm"
    and x: "tile_coord (fst coords) (obj_x tm) (obj_tileSize tm) = Fin (of_int col)"
    and y: "tile_coord (snd coords) (obj_y tm) (obj_tileSize tm) = Fin (of_int row)"
    and b: "0 \<le> col" "col < obj_columns tm" "0 \<le> row" "row < obj_rows tm"
    by simp_all
  note w = array_set_consistent [OF c b]
  have cell: "obj_tileData (tm\<lparr>obj_tileData := array_set (obj_tileData tm)
        (Fin (of_int (row * obj_columns tm + col))) (selectedTile_or_1 ed)\<rparr>)
      ! nat (row * obj_columns tm + col) = Some (selectedTile_or_1 ed)"
    using w by simp
  {
    assume "resolved_tilemap now ed = Some tm"
    from tile_down_write [OF this x y b] cell
    show "\<exists>ed' tm'. handleTileToolDown now ed coords = Inr ed' \<and> active_tilemap ed' = Some tm' \<and>
        obj_tileData tm' ! nat (row * obj_columns tm + col) = Some (selectedTile_or_1 ed)"
      by blast
  }
  {
    assume m: "isDragging ed \<and> active_tilemap ed = Some tm \<and>
        lastPlacedTile ed \<noteq> Some (Fin (of_int col), Fin (of_int row))"
    then have "isDragging ed" and "active_tilemap ed = Some tm"
      and "lastPlacedTile ed \<noteq> Some (Fin (of_int col), Fin (of_int row))"
      by simp_all
    from tile_move_write [OF this(1,2) x y b this(3)] cell
    show "\<exists>ed' tm'. handleTileToolMove ed coords = Inr ed' \<and> active_tilemap ed' = Some tm' \<and>
        obj_tileData tm' ! nat (row * obj_columns tm + col) = Some (selectedTile_or_1 ed)"
      by blast
  }
next
  fix tm ed'
  assume a: "active_tilemap ed = Some tm \<and>
        (handleTileToolDown now ed coords = Inr ed' \<or> handleTileToolMove ed coords = Inr ed')"
  then have "ed' = ed \<or>
         (\<exists>k. active_tilemap ed' =
                 Some (tm\<lparr>obj_tileData := array_set (obj_tileData tm) k (selectedTile_or_1 ed)\<rparr>))"
    using tile_handlers_existing_result [of ed tm now coords ed'] by blast
  then show "\<exists>tm'. active_tilemap ed' = Some tm' \<and>
         (\<forall>j < length (obj_tileData tm'). obj_tileData tm' ! j = Some 0 \<longrightarrow>
            j < length (obj_tileData tm) \<and> obj_tileData tm ! j = Some 0)"
  proof
    assume "ed' = ed"
    with a show ?thesis by simp
  next
    assume "\<exists>k. active_tilemap ed' =
                 Some (tm\<lparr>obj_tileData := array_set (obj_tileData tm) k (selectedTile_or_1 ed)\<rparr>)"
    then obtain k where "active_tilemap ed' =
                 Some (tm\<lparr>obj_tileData := array_set (obj_tileData tm) k (selectedTile_or_1 ed)\<rparr>)" ..
    then show ?thesis
      using array_set_zero_cell [OF selectedTile_or_1_nonzero, of _ "obj_tileData tm" k ed]
      by simp
  qed
next
  fix tm ed'
  assume a: "resolved_tilemap now ed = Some tm \<and> handleTileToolDown now ed coords = Inr ed'"
  then have "active_tilemap ed' = Some tm \<or>
         (\<exists>k. active_tilemap ed' =
                 Some (tm\<lparr>obj_tileData := array_set (obj_tileData tm) k (selectedTile_or_1 ed)\<rparr>))"
    using tile_down_result [of now ed tm coords ed'] by blast
  then show "\<exists>tm'. active_tilemap ed' = Some tm' \<and>
         (\<forall>j < length (obj_tileData tm'). obj_tileData tm' ! j = Some 0 \<longrightarrow>
            j < length (obj_tileData tm) \<and> obj_tileData tm ! j = Some 0)"
  proof
    assume "active_tilemap ed' = Some tm"
    then show ?thesis by simp
  next
    assume "\<exists>k. active_tilemap ed' =
                 Some (tm\<lparr>obj_tileData := array_set (obj_tileData tm) k (selectedTile_or_1 ed)\<rparr>)"
    then obtain k where "active_tilemap ed' =
                 Some (tm\<lparr>obj_tileData := array_set (obj_tileData tm) k (selectedTile_or_1 ed)\<rparr>)" ..
    then show ?thesis
      using array_set_zero_cell [OF selectedTile_or_1_nonzero, of _ "obj_tileData tm" k ed]
      by simp
  qed
qed

theorem tile_paint_never_writes_empty_witness:
  "app_selectedTile scenario_D = None \<and> selectedTile_or_1 scenario_D = 1 \<and>
   app_selectedTile scenario_D_tile_7 = Some 7 \<and> selectedTile_or_1 scenario_D_tile_7 = 7 \<and>
   (\<exists>ed' tm'. handleTileToolDown ''0'' scenario_D (Fin 35, Fin 67) = Inr ed' \<and>
      active_tilemap ed' = Some tm' \<and> obj_tileData tm' ! 21 = Some 1) \<and>
   (\<exists>ed' tm'. handleTileToolDown ''0'' (tile_tool_editor []) (Fin 35, Fin 67) = Inr ed' \<and>
      active_tilemap ed' = Some tm' \<and> obj_tileData tm' ! 51 = Some 1) \<and>
   (\<exists>ed' tm'. handleTileToolDown ''0'' scenario_D_tile_7 (Fin 35, Fin 67) = Inr ed' \<and>
      active_tilemap ed' = Some tm' \<and> obj_tileData tm' ! 21 = Some 7) \<and>
   (\<exists>ed' tm'. handleTileToolMove scenario_D_tile_7 (Fin 100, Fin 67) = Inr ed' \<and>
      active_tilemap ed' = Some tm' \<and> obj_tileData tm' ! 23 = Some 7)"
proof -
  let ?tm = "new_tilemap ''0'' default_scene ''tileset_1''"
  have none: "app_selectedTile scenario_D = None"
    by (simp add: scenario_D_def tile_tool_editor_def one_layer_editor_def)
  have in1: "tilemap_consistent tilemap_10x10 \<and>
      tile_coord (fst (Fin 35, Fin 67)) (obj_x tilemap_10x10) (obj_tileSize tilemap_10x10) = Fin (of_int 1) \<and>
      tile_coord (snd (Fin 35, Fin 67)) (obj_y tilemap_10x10) (obj_tileSize tilemap_10x10) = Fin (of_int 2) \<and>
      0 \<le> (1::int) \<and> 1 < obj_columns tilemap_10x10 \<and> 0 \<le> (2::int) \<and> 2 < obj_rows tilemap_10x10"
    using example_editors_consistent(3)
    by (simp add: tilemap_10x10_fields scenario_D_cells del: of_int_numeral of_int_1)
  have in2: "tilemap_consistent tilemap_10x10 \<and>
      tile_coord (fst (Fin 100, Fin 67)) (obj_x tilemap_10x10) (obj_tileSize tilemap_10x10) = Fin (of_int 3) \<and>
      tile_coord (snd (Fin 100, Fin 67)) (obj_y tilemap_10x10) (obj_tileSize tilemap_10x10) = Fin (of_int 2) \<and>
      0 \<le> (3::int) \<and> 3 < obj_columns tilemap_10x10 \<and> 0 \<le> (2::int) \<and> 2 < obj_rows tilemap_10x10"
    using example_editors_consistent(3)
    by (simp add: tilemap_10x10_fields scenario_D_cells del: of_int_numeral of_int_1)
  have in3: "tilemap_consistent ?tm \<and>
      tile_coord (fst (Fin 35, Fin 67)) (obj_x ?tm) (obj_tileSize ?tm) = Fin (of_int 1) \<and>
      tile_coord (snd (Fin 35, Fin 67)) (obj_y ?tm) (obj_tileSize ?tm) = Fin (of_int 2) \<and>
      0 \<le> (1::int) \<and> 1 < obj_columns ?tm \<and> 0 \<le> (2::int) \<and> 2 < obj_rows ?tm"
    by (simp add: new_tilemap_origin first_tilemap_fields scenario_D_cells tilemap_consistent_def
        del: of_int_numeral of_int_1)
  have 1: "\<exists>ed' tm'. handleTileToolDown ''0'' scenario_D (Fin 35, Fin 67) = Inr ed' \<and>
      active_tilemap ed' = Some tm' \<and>
      obj_tileData tm' ! nat (2 * obj_columns tilemap_10x10 + 1) = Some (selectedTile_or_1 scenario_D)"
    using tile_paint_never_writes_empty [of scenario_D "(Fin 35, Fin 67)" "''0''"]
      in1 resolved_tilemap_examples(1) [of "''0''"]
    by blast
  have 2: "\<exists>ed' tm'. handleTileToolDown ''0'' (tile_tool_editor []) (Fin 35, Fin 67) = Inr ed' \<and>
      active_tilemap ed' = Some tm' \<and>
      obj_tileData tm' ! nat (2 * obj_columns ?tm + 1) = Some (selectedTile_or_1 (tile_tool_editor []))"
    using tile_paint_never_writes_empty [of "tile_tool_editor []" "(Fin 35, Fin 67)" "''0''"]
      in3 resolved_tilemap_examples(3) [of "''0''"]
    by blast
  have 3: "\<exists>ed' tm'. handleTileToolDown ''0'' scenario_D_tile_7 (Fin 35, Fin 67) = Inr ed' \<and>
      active_tilemap ed' = Some tm' \<and>
      obj_tileData tm' ! nat (2 * obj_columns tilemap_10x10 + 1) = Some (selectedTile_or_1 scenario_D_tile_7)"
    using tile_paint_never_writes_empty [of scenario_D_tile_7 "(Fin 35, Fin 67)" "''0''"]
      in1 resolved_tilemap_examples(2) [of "''0''"]
    by blast
  have "isDragging scenario_D_tile_7 \<and> active_tilemap scenario_D_tile_7 = Some tilemap_10x10 \<and>
      lastPlacedTile scenario_D_tile_7 \<noteq> Some (Fin (of_int 3), Fin (of_int 2))"
    by (simp add: scenario_D_tile_7_fields)
  then have 4: "\<exists>ed' tm'. handleTileToolMove scenario_D_tile_7 (Fin 100, Fin 67) = Inr ed' \<and>
      active_tilemap ed' = Some tm' \<and>
      obj_tileData tm' ! nat (2 * obj_columns tilemap_10x10 + 3) = Some (selectedTile_or_1 scenario_D_tile_7)"
    using tile_paint_never_writes_empty [of scenario_D_tile_7 "(Fin 100, Fin 67)" "''0''"] in2
    by blast
  from none 1 2 3 4 show ?thesis
    by (simp add: tilemap_10x10_fields first_tilemap_fields scenario_D_fields
        scenario_D_tile_7_fields tile_tool_editor_fields)
qed

end
